theory Spec2Isabelle
  imports
    Main
    "HOL-Library.Word"
    "HOL-Library.AList"
    "HOL-Library.Char_ord"
    "HOL-Library.List_Lexorder"
    "HOL-Library.Sublist"
begin

section \<open>Go values\<close>

text \<open>
  A Go string and a Go byte slice are sequences of bytes; both are \<open>string\<close> here
  (a \<open>char\<close> is one byte). Go's \<open>int\<close> is the 64-bit two's complement integer of a
  64-bit platform: \<open>+\<close> wraps around, \<open>sint\<close> reads the value, \<open><s\<close> compares
  signed values. A nil pointer is \<open>None\<close>.
\<close>

type_synonym bytes = string

type_synonym goint = "64 word"

text \<open>
  Errors. The first five are bolt's sentinel errors, the next two are the errors of
  encoding/json that the model distinguishes, \<open>Errorf\<close> carries the text that
  \<open>fmt.Errorf\<close> produced, and \<open>Wrapped msg e\<close> is a text that ends with the message
  of another error (the \<open>%v\<close> of an error value).
\<close>

datatype error =
    ErrBucketNameRequired
  | ErrKeyRequired
  | ErrIncompatibleValue
  | ErrBucketExists
  | ErrBucketNotFound
  | SyntaxError
  | UnmarshalTypeError bytes
  | Errorf string
  | Wrapped string error

section \<open>The rating aggregate (rating.go)\<close>

record rating =
  FiveStars :: goint
  FourStars :: goint
  ThreeStars :: goint
  TwoStars :: goint
  OneStars :: goint

text \<open>The zero value of the struct: what \<open>var currentRating rating\<close> and \<open>&rating{}\<close> hold.\<close>

definition rating_zero :: rating where
  "rating_zero = \<lparr>FiveStars = 0, FourStars = 0, ThreeStars = 0, TwoStars = 0, OneStars = 0\<rparr>"

text \<open>\<open>func (r *rating) add(rt rating) *rating\<close>: the receiver is updated and returned.\<close>

definition rating_add :: "rating \<Rightarrow> rating \<Rightarrow> rating" where
  "rating_add r rt =
     r\<lparr>FiveStars := FiveStars r + FiveStars rt,
       FourStars := FourStars r + FourStars rt,
       ThreeStars := ThreeStars r + ThreeStars rt,
       TwoStars := TwoStars r + TwoStars rt,
       OneStars := OneStars r + OneStars rt\<rparr>"

text \<open>\<open>func (r *rating) ensureNotNegative() *rating\<close>: five independent tests, in order.\<close>

definition ensureNotNegative :: "rating \<Rightarrow> rating" where
  "ensureNotNegative r0 =
     (let r1 = (if FiveStars r0 <s 0 then r0\<lparr>FiveStars := 0\<rparr> else r0);
          r2 = (if FourStars r1 <s 0 then r1\<lparr>FourStars := 0\<rparr> else r1);
          r3 = (if ThreeStars r2 <s 0 then r2\<lparr>ThreeStars := 0\<rparr> else r2);
          r4 = (if TwoStars r3 <s 0 then r3\<lparr>TwoStars := 0\<rparr> else r3);
          r5 = (if OneStars r4 <s 0 then r4\<lparr>OneStars := 0\<rparr> else r4)
      in r5)"

section \<open>The comment entity\<close>

text \<open>
  Modelled from the spec: the declaration of the \<open>comment\<close> struct is not among the
  sources. The spec gives it two fields, an identifier and a text value, stored as an
  encoded \<open>{id, value}\<close> record; the sources use them as \<open>ID\<close> and \<open>Value\<close>
  (\<open>&comment{ID: "1234", Value: "something"}\<close>) and expect the JSON text
  \<open>{"id":"...","value":"..."}\<close>.
\<close>

record comment =
  ID :: bytes
  Value :: bytes

definition comment_zero :: comment where
  "comment_zero = \<lparr>ID = [], Value = []\<rparr>"

section \<open>Library model: encoding/json on the two record types\<close>

text \<open>
  \<open>json.Marshal\<close> and \<open>json.Unmarshal\<close> belong to Go's standard library. The model
  writes the exact text that \<open>Marshal\<close> produces for the two structs, and reads JSON
  objects whose members are integers or strings, in any order and with any white space:
  this covers every record the program writes and the literals of its tests. A member
  is matched to a field by its name without regard to (ASCII) case, a member no field
  matches is skipped, and a value of the wrong kind or out of the range of \<open>int\<close>
  leaves its field alone and is reported, after the other members have been read, as
  the first such error. Other JSON (fractions, exponents, nested values, \<open>true\<close>,
  \<open>false\<close>, \<open>null\<close>, surrogate escapes) is reported as a syntax error by the model.
  Bytes from 0x80 are copied as they are: strings are taken to be well-formed UTF-8
  text, which the library copies too (but for U+2028 and U+2029, which it writes as
  escapes that decode to the same bytes; ill-formed bytes it would replace).
\<close>

subsection \<open>Integers in decimal\<close>

definition is_digit :: "char \<Rightarrow> bool" where
  "is_digit c \<longleftrightarrow> c \<in> set ''0123456789''"

definition digit_char :: "nat \<Rightarrow> char" where
  "digit_char n = ''0123456789'' ! n"

definition digit_val :: "char \<Rightarrow> nat" where
  "digit_val c = of_char c - 48"

fun digits10 :: "nat \<Rightarrow> string" where
  "digits10 n = (if n < 10 then [digit_char n] else digits10 (n div 10) @ [digit_char (n mod 10)])"

declare digits10.simps [simp del]

definition val10 :: "string \<Rightarrow> nat" where
  "val10 ds = foldl (\<lambda>a d. 10 * a + digit_val d) 0 ds"

definition itoa :: "int \<Rightarrow> string" where
  "itoa i = (if i < 0 then CHR ''-'' # digits10 (nat (- i)) else digits10 (nat i))"

text \<open>
  An integer literal of JSON at the head of the input: an optional minus sign, then
  \<open>0\<close> or a run of digits that does not start with \<open>0\<close>. The rest of the input is
  returned with the value.
\<close>

definition read_int :: "string \<Rightarrow> (int \<times> string) option" where
  "read_int s =
     (let neg = (s \<noteq> [] \<and> hd s = CHR ''-'');
          body = (if neg then tl s else s);
          ds = takeWhile is_digit body;
          rest = dropWhile is_digit body
      in if ds = [] \<or> (hd ds = CHR ''0'' \<and> 1 < length ds) then None
         else Some (if neg then - int (val10 ds) else int (val10 ds), rest))"

subsection \<open>Strings\<close>

definition dquote :: char where
  "dquote = CHR 0x22"

definition backslash :: char where
  "backslash = CHR 0x5C"

definition hex_char :: "nat \<Rightarrow> char" where
  "hex_char n = ''0123456789abcdef'' ! n"

definition hex_val :: "char \<Rightarrow> nat option" where
  "hex_val c =
     (if is_digit c then Some (of_char c - 48)
      else if c \<in> set ''abcdef'' then Some (of_char c - 87)
      else if c \<in> set ''ABCDEF'' then Some (of_char c - 55)
      else None)"

text \<open>
  The bytes \<open>Marshal\<close> escapes: the quote, the backslash, the control characters and,
  as it escapes for HTML, \<open><\<close>, \<open>>\<close> and \<open>&\<close>.
\<close>

definition escape_byte :: "char \<Rightarrow> string" where
  "escape_byte c =
     (if c = dquote then [backslash, dquote]
      else if c = backslash then [backslash, backslash]
      else if c = CHR 0x0A then [backslash, CHR ''n'']
      else if c = CHR 0x0D then [backslash, CHR ''r'']
      else if c = CHR 0x09 then [backslash, CHR ''t'']
      else if (of_char c :: nat) < 32 \<or> c = CHR ''<'' \<or> c = CHR ''>'' \<or> c = CHR ''&''
        then [backslash, CHR ''u'', CHR ''0'', CHR ''0'',
              hex_char (of_char c div 16), hex_char (of_char c mod 16)]
      else [c])"

definition quote :: "bytes \<Rightarrow> string" where
  "quote s = dquote # concat (map escape_byte s) @ [dquote]"

text \<open>The UTF-8 bytes of a code point below 0x10000 that is not a surrogate.\<close>

definition utf8_bytes :: "nat \<Rightarrow> bytes option" where
  "utf8_bytes n =
     (if n < 128 then Some [char_of n]
      else if n < 2048 then Some [char_of (192 + n div 64), char_of (128 + n mod 64)]
      else if 55296 \<le> n \<and> n < 57344 then None
      else Some [char_of (224 + n div 4096), char_of (128 + n div 64 mod 64),
                 char_of (128 + n mod 64)])"

definition hex4 :: "char \<Rightarrow> char \<Rightarrow> char \<Rightarrow> char \<Rightarrow> nat option" where
  "hex4 a b c d =
     (case (hex_val a, hex_val b, hex_val c, hex_val d) of
        (Some w, Some x, Some y, Some z) \<Rightarrow> Some (4096 * w + 256 * x + 16 * y + z)
      | _ \<Rightarrow> None)"

definition simple_escape :: "char \<Rightarrow> char option" where
  "simple_escape e =
     (if e = dquote then Some dquote
      else if e = backslash then Some backslash
      else if e = CHR ''/'' then Some CHR ''/''
      else if e = CHR ''b'' then Some (CHR 0x08)
      else if e = CHR ''f'' then Some (CHR 0x0C)
      else if e = CHR ''n'' then Some (CHR 0x0A)
      else if e = CHR ''r'' then Some (CHR 0x0D)
      else if e = CHR ''t'' then Some (CHR 0x09)
      else None)"

text \<open>
  The body of a string literal, read from just after its opening quote up to its closing
  quote: the decoded bytes and the input after the closing quote.
\<close>

fun unquote :: "string \<Rightarrow> (bytes \<times> string) option" where
  "unquote [] = None"
| "unquote (c # cs) =
     (if c = dquote then Some ([], cs)
      else if c = backslash then
        (case cs of
           [] \<Rightarrow> None
         | e # es \<Rightarrow>
             if e = CHR ''u'' then
               (case es of
                  h1 # h2 # h3 # h4 # rest \<Rightarrow>
                    (case hex4 h1 h2 h3 h4 of
                       None \<Rightarrow> None
                     | Some n \<Rightarrow>
                         (case utf8_bytes n of
                            None \<Rightarrow> None
                          | Some bs \<Rightarrow> map_option (\<lambda>(s, r). (bs @ s, r)) (unquote rest)))
                | _ \<Rightarrow> None)
             else
               (case simple_escape e of
                  None \<Rightarrow> None
                | Some b \<Rightarrow> map_option (\<lambda>(s, r). (b # s, r)) (unquote es)))
      else if (of_char c :: nat) < 32 then None
      else map_option (\<lambda>(s, r). (c # s, r)) (unquote cs))"

subsection \<open>Tokens and objects\<close>

datatype token = LBrace | RBrace | Colon | Comma | Str bytes | Num int

definition is_space :: "char \<Rightarrow> bool" where
  "is_space c \<longleftrightarrow> c = CHR '' '' \<or> c = CHR 0x09 \<or> c = CHR 0x0A \<or> c = CHR 0x0D"

lemma unquote_shorter: "unquote cs = Some (s, rest) \<Longrightarrow> length rest < length cs"
proof (induction cs arbitrary: s rest rule: unquote.induct)
  case 1
  then show ?case by simp
next
  case (2 c cs)
  show ?case
  proof (cases "c = dquote")
    case True
    with "2.prems" show ?thesis by simp
  next
    case nq: False
    show ?thesis
    proof (cases "c = backslash")
      case True
      show ?thesis
      proof (cases cs)
        case Nil
        with "2.prems" nq True show ?thesis by simp
      next
        case (Cons e es)
        show ?thesis
        proof (cases "e = CHR ''u''")
          case u: True
          from "2.prems" nq True Cons u obtain h1 h2 h3 h4 rest' n bs s'
            where es: "es = h1 # h2 # h3 # h4 # rest'" and h: "hex4 h1 h2 h3 h4 = Some n"
              and b: "utf8_bytes n = Some bs" and r: "unquote rest' = Some (s', rest)"
            by (auto split: list.splits option.splits)
          from "2.IH"(1) [OF nq True Cons u es refl refl refl h b r] have "length rest < length rest'" .
          with Cons es show ?thesis by simp
        next
          case nu: False
          from "2.prems" nq True Cons nu obtain b s'
            where b: "simple_escape e = Some b" and r: "unquote es = Some (s', rest)"
            by (auto split: option.splits)
          from "2.IH"(2) [OF nq True Cons nu b r] have "length rest < length es" .
          with Cons show ?thesis by simp
        qed
      qed
    next
      case nb: False
      from "2.prems" nq nb obtain s' where c: "\<not> (of_char c :: nat) < 32"
        and r: "unquote cs = Some (s', rest)"
        by (auto split: if_splits)
      from "2.IH"(3) [OF nq nb c r] show ?thesis by simp
    qed
  qed
qed

lemma dropWhile_shorter:
  "takeWhile P xs \<noteq> [] \<Longrightarrow> length (dropWhile P xs) < length xs"
  by (cases xs) (auto simp: less_Suc_eq_le length_dropWhile_le split: if_splits)

lemma read_int_shorter: "read_int cs = Some (i, rest) \<Longrightarrow> length rest < length cs"
proof -
  assume a: "read_int cs = Some (i, rest)"
  define body where "body = (if cs \<noteq> [] \<and> hd cs = CHR ''-'' then tl cs else cs)"
  from a have ne: "takeWhile is_digit body \<noteq> []" and rest: "rest = dropWhile is_digit body"
    by (auto simp: read_int_def Let_def body_def split: if_splits)
  from ne have "length rest < length body" unfolding rest by (rule dropWhile_shorter)
  moreover have "length body \<le> length cs" by (simp add: body_def)
  ultimately show ?thesis by simp
qed

function lex :: "string \<Rightarrow> token list option" where
  "lex [] = Some []"
| "lex (c # cs) =
     (if is_space c then lex cs
      else if c = CHR ''{'' then map_option ((#) LBrace) (lex cs)
      else if c = CHR ''}'' then map_option ((#) RBrace) (lex cs)
      else if c = CHR '':'' then map_option ((#) Colon) (lex cs)
      else if c = CHR '','' then map_option ((#) Comma) (lex cs)
      else if c = dquote then
        (case unquote cs of
           None \<Rightarrow> None
         | Some (s, rest) \<Rightarrow> map_option ((#) (Str s)) (lex rest))
      else
        (case read_int (c # cs) of
           None \<Rightarrow> None
         | Some (i, rest) \<Rightarrow> map_option ((#) (Num i)) (lex rest)))"
  by pat_completeness auto
termination
proof (relation "measure length")
  show "wf (measure length)" by simp
next
  fix c cs x2 x y
  assume "unquote cs = Some x2" and "(x, y) = x2"
  then have "length y < length cs" by (auto dest: unquote_shorter)
  then show "(y, c # cs) \<in> measure length" by simp
next
  fix c cs x2 x y
  assume "read_int (c # cs) = Some x2" and "(x, y) = x2"
  then have "length y < length (c # cs)" by (auto dest: read_int_shorter)
  then show "(y, c # cs) \<in> measure length" by simp
qed simp_all

declare lex.simps [simp del]

text \<open>The members of an object, from the token after its opening brace.\<close>

fun members :: "token list \<Rightarrow> (bytes \<times> token) list option" where
  "members (Str k # Colon # v # t # ts) =
     (if \<not> (case v of Str _ \<Rightarrow> True | Num _ \<Rightarrow> True | _ \<Rightarrow> False) then None
      else if t = RBrace \<and> ts = [] then Some [(k, v)]
      else if t = Comma then map_option ((#) (k, v)) (members ts)
      else None)"
| "members _ = None"

definition parse_object :: "bytes \<Rightarrow> (bytes \<times> token) list option" where
  "parse_object data =
     (case lex data of
        None \<Rightarrow> None
      | Some ts \<Rightarrow>
          (case ts of
             [LBrace, RBrace] \<Rightarrow> Some []
           | LBrace # ms \<Rightarrow> members ms
           | _ \<Rightarrow> None))"

definition lower_char :: "char \<Rightarrow> char" where
  "lower_char c = (if c \<in> set ''ABCDEFGHIJKLMNOPQRSTUVWXYZ'' then char_of (of_char c + (32::nat)) else c)"

definition int_value :: "token \<Rightarrow> goint option" where
  "int_value v =
     (case v of
        Num i \<Rightarrow> if - (2 ^ 63) \<le> i \<and> i < 2 ^ 63 then Some (word_of_int i) else None
      | _ \<Rightarrow> None)"

definition string_value :: "token \<Rightarrow> bytes option" where
  "string_value v = (case v of Str s \<Rightarrow> Some s | _ \<Rightarrow> None)"

text \<open>The first error is the one \<open>Unmarshal\<close> returns.\<close>

definition note_error :: "error option \<Rightarrow> error \<Rightarrow> error option" where
  "note_error e new = (case e of None \<Rightarrow> Some new | Some old \<Rightarrow> Some old)"

subsection \<open>The rating record\<close>

definition marshal_rating :: "rating \<Rightarrow> bytes" where
  \<open>marshal_rating r =
     ''{"five_stars":'' @ itoa (sint (FiveStars r)) @
     '',"four_stars":'' @ itoa (sint (FourStars r)) @
     '',"three_stars":'' @ itoa (sint (ThreeStars r)) @
     '',"two_stars":'' @ itoa (sint (TwoStars r)) @
     '',"one_stars":'' @ itoa (sint (OneStars r)) @ ''}''\<close>

definition rating_field :: "bytes \<Rightarrow> goint \<Rightarrow> rating \<Rightarrow> rating" where
  "rating_field f w r =
     (if f = ''five_stars'' then r\<lparr>FiveStars := w\<rparr>
      else if f = ''four_stars'' then r\<lparr>FourStars := w\<rparr>
      else if f = ''three_stars'' then r\<lparr>ThreeStars := w\<rparr>
      else if f = ''two_stars'' then r\<lparr>TwoStars := w\<rparr>
      else if f = ''one_stars'' then r\<lparr>OneStars := w\<rparr>
      else r)"

definition assign_rating :: "rating \<times> error option \<Rightarrow> bytes \<times> token \<Rightarrow> rating \<times> error option" where
  "assign_rating st m =
     (let f = map lower_char (fst m) in
      if f \<notin> set [''five_stars'', ''four_stars'', ''three_stars'', ''two_stars'', ''one_stars'']
      then st
      else (case int_value (snd m) of
              None \<Rightarrow> (fst st, note_error (snd st) (UnmarshalTypeError f))
            | Some w \<Rightarrow> (rating_field f w (fst st), snd st)))"

text \<open>\<open>json.Unmarshal(data, &r)\<close>: the struct after the call, and the error.\<close>

definition unmarshal_rating :: "bytes \<Rightarrow> rating \<Rightarrow> rating \<times> error option" where
  "unmarshal_rating data r =
     (case parse_object data of
        None \<Rightarrow> (r, Some SyntaxError)
      | Some ms \<Rightarrow> foldl assign_rating (r, None) ms)"

subsection \<open>The comment record\<close>

definition marshal_comment :: "comment \<Rightarrow> bytes" where
  \<open>marshal_comment c = ''{"id":'' @ quote (ID c) @ '',"value":'' @ quote (Value c) @ ''}''\<close>

definition assign_comment :: "comment \<times> error option \<Rightarrow> bytes \<times> token \<Rightarrow> comment \<times> error option" where
  "assign_comment st m =
     (let f = map lower_char (fst m) in
      if f \<notin> set [''id'', ''value''] then st
      else (case string_value (snd m) of
              None \<Rightarrow> (fst st, note_error (snd st) (UnmarshalTypeError f))
            | Some s \<Rightarrow>
                (if f = ''id'' then (fst st)\<lparr>ID := s\<rparr> else (fst st)\<lparr>Value := s\<rparr>, snd st)))"

definition unmarshal_comment :: "bytes \<Rightarrow> comment \<Rightarrow> comment \<times> error option" where
  "unmarshal_comment data c =
     (case parse_object data of
        None \<Rightarrow> (c, Some SyntaxError)
      | Some ms \<Rightarrow> foldl assign_comment (c, None) ms)"

section \<open>Library model: the bolt store\<close>

text \<open>
  Modelled from the spec: the store (github.com/boltdb/bolt) is a library and not part
  of the sources. The spec's contract of the hierarchical store is followed: named
  containers (buckets) nest, a bucket holds records and nested buckets under byte-string
  keys in one key space, creating a bucket with an empty name fails, putting a record
  under an empty key fails, a read-write transaction commits all its writes when its
  function returns no error and discards them all when it returns one. What the spec
  leaves open follows the library: a key that holds a nested bucket cannot be written,
  read or deleted as a record, and a key that holds a record cannot become a bucket
  (\<open>ErrIncompatibleValue\<close>); deleting an absent key succeeds; iteration is in the order
  of the keys. The database is open and the disk does not fail; the library's limits on
  the size of a key and of a value are not modelled.

  A bucket is its list of entries; a transaction works on the tree below the root
  bucket, and a bucket handle (\<open>*bolt.Bucket\<close>) is the path of names from the root.
\<close>

datatype node = Record bytes | Nested "(bytes \<times> node) list"

type_synonym bucket = "(bytes \<times> node) list"

type_synonym handle = "bytes list"

type_synonym tx = bucket

type_synonym db = bucket

fun bucket_at :: "bucket \<Rightarrow> handle \<Rightarrow> bucket option" where
  "bucket_at b [] = Some b"
| "bucket_at b (n # ns) =
     (case map_of b n of
        Some (Nested c) \<Rightarrow> bucket_at c ns
      | _ \<Rightarrow> None)"

fun replace_at :: "handle \<Rightarrow> bucket \<Rightarrow> bucket \<Rightarrow> bucket" where
  "replace_at [] new b = new"
| "replace_at (n # ns) new b =
     (case map_of b n of
        Some (Nested c) \<Rightarrow> AList.update n (Nested (replace_at ns new c)) b
      | _ \<Rightarrow> b)"

text \<open>\<open>b.Bucket(name)\<close>: the nested bucket, nil when the key is absent or holds a record.\<close>

definition Bucket :: "tx \<Rightarrow> handle \<Rightarrow> bytes \<Rightarrow> handle option" where
  "Bucket t h name =
     (case bucket_at t h of
        None \<Rightarrow> None
      | Some b \<Rightarrow> (case map_of b name of Some (Nested _) \<Rightarrow> Some (h @ [name]) | _ \<Rightarrow> None))"

text \<open>\<open>b.CreateBucket(key)\<close>.\<close>

definition CreateBucket :: "tx \<Rightarrow> handle \<Rightarrow> bytes \<Rightarrow> error + (handle \<times> tx)" where
  "CreateBucket t h name =
     (if name = [] then Inl ErrBucketNameRequired
      else (case bucket_at t h of
              None \<Rightarrow> Inl ErrBucketNotFound
            | Some b \<Rightarrow>
                (case map_of b name of
                   Some (Nested _) \<Rightarrow> Inl ErrBucketExists
                 | Some (Record _) \<Rightarrow> Inl ErrIncompatibleValue
                 | None \<Rightarrow> Inr (h @ [name], replace_at h (AList.update name (Nested []) b) t))))"

text \<open>\<open>b.CreateBucketIfNotExists(key)\<close>: \<open>CreateBucket\<close>, with \<open>ErrBucketExists\<close> turned into the existing bucket.\<close>

definition CreateBucketIfNotExists :: "tx \<Rightarrow> handle \<Rightarrow> bytes \<Rightarrow> error + (handle \<times> tx)" where
  "CreateBucketIfNotExists t h name =
     (case CreateBucket t h name of
        Inl err \<Rightarrow> if err = ErrBucketExists then Inr (h @ [name], t) else Inl err
      | Inr child \<Rightarrow> Inr child)"

text \<open>\<open>b.Get(key)\<close>: nil when the key is absent or holds a nested bucket.\<close>

definition Get :: "tx \<Rightarrow> handle \<Rightarrow> bytes \<Rightarrow> bytes option" where
  "Get t h k =
     (case bucket_at t h of
        None \<Rightarrow> None
      | Some b \<Rightarrow> (case map_of b k of Some (Record v) \<Rightarrow> Some v | _ \<Rightarrow> None))"

text \<open>\<open>b.Put(key, value)\<close>.\<close>

definition Put :: "tx \<Rightarrow> handle \<Rightarrow> bytes \<Rightarrow> bytes \<Rightarrow> error + tx" where
  "Put t h k v =
     (if k = [] then Inl ErrKeyRequired
      else (case bucket_at t h of
              None \<Rightarrow> Inl ErrBucketNotFound
            | Some b \<Rightarrow>
                (case map_of b k of
                   Some (Nested _) \<Rightarrow> Inl ErrIncompatibleValue
                 | _ \<Rightarrow> Inr (replace_at h (AList.update k (Record v) b) t))))"

text \<open>\<open>b.Delete(key)\<close>.\<close>

definition Delete :: "tx \<Rightarrow> handle \<Rightarrow> bytes \<Rightarrow> error + tx" where
  "Delete t h k =
     (case bucket_at t h of
        None \<Rightarrow> Inl ErrBucketNotFound
      | Some b \<Rightarrow>
          (case map_of b k of
             Some (Nested _) \<Rightarrow> Inl ErrIncompatibleValue
           | _ \<Rightarrow> Inr (replace_at h (AList.delete k b) t)))"

text \<open>
  \<open>b.ForEach(fn)\<close>: \<open>fn\<close> is called with every key in key order, with a nil value for
  a nested bucket, until it returns an error. The state \<open>'s\<close> is what \<open>fn\<close> captures.
\<close>

fun for_each :: "(bytes \<times> node) list \<Rightarrow> (bytes \<Rightarrow> bytes option \<Rightarrow> 's \<Rightarrow> 's \<times> error option) \<Rightarrow> 's \<Rightarrow> 's \<times> error option" where
  "for_each [] fn s = (s, None)"
| "for_each (e # es) fn s =
     (case fn (fst e) (case snd e of Record v \<Rightarrow> Some v | Nested _ \<Rightarrow> None) s of
        (s', Some err) \<Rightarrow> (s', Some err)
      | (s', None) \<Rightarrow> for_each es fn s')"

definition ForEach :: "tx \<Rightarrow> handle \<Rightarrow> (bytes \<Rightarrow> bytes option \<Rightarrow> 's \<Rightarrow> 's \<times> error option) \<Rightarrow> 's \<Rightarrow> 's \<times> error option" where
  "ForEach t h fn s =
     (case bucket_at t h of
        None \<Rightarrow> (s, Some ErrBucketNotFound)
      | Some b \<Rightarrow> for_each (sort_key fst (AList.clearjunk b)) fn s)"

text \<open>
  \<open>db.Update(fn)\<close> and \<open>db.View(fn)\<close>. The function of a transaction receives the
  tree and returns the values of the variables it has assigned outside itself, its
  error and the tree it leaves. \<open>Update\<close> commits the tree when the error is nil and
  rolls back to the database as it was otherwise; \<open>View\<close> never changes the database.
\<close>

definition Update :: "db \<Rightarrow> (tx \<Rightarrow> 'a \<times> error option \<times> tx) \<Rightarrow> ('a \<times> error option) \<times> db" where
  "Update d fn =
     (case fn d of
        (x, None, t) \<Rightarrow> ((x, None), t)
      | (x, Some err, t) \<Rightarrow> ((x, Some err), d))"

definition View :: "db \<Rightarrow> (tx \<Rightarrow> 'a \<times> error option) \<Rightarrow> 'a \<times> error option" where
  "View d fn = fn d"

section \<open>Resource types (rateable.go and commentable.go)\<close>

text \<open>
  \<open>func setup(db, cmts)\<close> and \<open>func verify(db, kind)\<close> have the same text in both
  packages; \<open>setup\<close> is \<open>setup_names\<close> here. Its loop runs inside one read-write
  transaction and returns at the first error.
\<close>

fun setup_loop :: "bytes list \<Rightarrow> tx \<Rightarrow> unit \<times> error option \<times> tx" where
  "setup_loop [] t = ((), None, t)"
| "setup_loop (b # cmts) t =
     (case CreateBucketIfNotExists t [] b of
        Inl err \<Rightarrow> ((), Some err, t)
      | Inr (_, t') \<Rightarrow> setup_loop cmts t')"

definition setup_names :: "db \<Rightarrow> bytes list \<Rightarrow> error option \<times> db" where
  "setup_names d cmts = (case Update d (setup_loop cmts) of ((_, err), d') \<Rightarrow> (err, d'))"

definition verify :: "db \<Rightarrow> bytes \<Rightarrow> bool" where
  "verify d kind = fst (View d (\<lambda>t. (Bucket t [] kind \<noteq> None, None)))"

section \<open>The rating attachment (rateable.go)\<close>

definition rateableTypeNotFoundFmt :: "bytes \<Rightarrow> string" where
  "rateableTypeNotFoundFmt kind = ''rateable type, '' @ kind @ '', not found''"

definition rateableNotFoundFmt :: "bytes \<Rightarrow> bytes \<Rightarrow> string" where
  "rateableNotFoundFmt a b = a @ '' not found with key '' @ b"

definition ratingsKey :: bytes where
  "ratingsKey = ''ratings''"

text \<open>The struct \<open>rateable{kind, key, db}\<close>; the database is passed beside it.\<close>

record rateable =
  r_kind :: bytes
  r_key :: bytes

text \<open>
  \<open>func (r *rateable) save(rt rating) (*rating, error)\<close>. \<open>newRating\<close> is assigned
  before the record is put, so a failing \<open>Put\<close> returns the new rating with the error.
  \<open>json.Marshal\<close> does not fail on a struct of five integers, so its error branch is
  left out.
\<close>

definition rateable_save :: "rateable \<Rightarrow> rating \<Rightarrow> db \<Rightarrow> (rating option \<times> error option) \<times> db" where
  "rateable_save r rt d =
     Update d (\<lambda>t.
       case Bucket t [] (r_kind r) of
         None \<Rightarrow> (None, Some (Errorf (rateableTypeNotFoundFmt (r_kind r))), t)
       | Some rtBucket \<Rightarrow>
           (case CreateBucketIfNotExists t rtBucket (r_key r) of
              Inl err \<Rightarrow> (None, Some err, t)
            | Inr (rBucket, t1) \<Rightarrow>
                (case (case Get t1 rBucket ratingsKey of
                         None \<Rightarrow> (rating_zero, None)
                       | Some data \<Rightarrow> unmarshal_rating data rating_zero) of
                   (currentRating, Some err) \<Rightarrow> (None, Some err, t1)
                 | (currentRating, None) \<Rightarrow>
                     (let newRating = ensureNotNegative (rating_add currentRating rt);
                          data = marshal_rating newRating
                      in case Put t1 rBucket ratingsKey data of
                           Inl err \<Rightarrow> (Some newRating, Some err, t1)
                         | Inr t2 \<Rightarrow> (Some newRating, None, t2)))))"

text \<open>
  \<open>func (r *rateable) get() (*rating, error)\<close>. \<open>rt\<close> is assigned before the record
  is read, so a failing \<open>Unmarshal\<close> returns what it has decoded with the error.
\<close>

definition rateable_get :: "rateable \<Rightarrow> db \<Rightarrow> rating option \<times> error option" where
  "rateable_get r d =
     View d (\<lambda>t.
       case Bucket t [] (r_kind r) of
         None \<Rightarrow> (None, Some (Errorf (rateableTypeNotFoundFmt (r_kind r))))
       | Some rtBucket \<Rightarrow>
           (case Bucket t rtBucket (r_key r) of
              None \<Rightarrow> (None, Some (Errorf (rateableNotFoundFmt (r_kind r) (r_key r))))
            | Some rBucket \<Rightarrow>
                (case Get t rBucket ratingsKey of
                   None \<Rightarrow> (Some rating_zero, None)
                 | Some data \<Rightarrow>
                     (case unmarshal_rating data rating_zero of
                        (rt, err) \<Rightarrow> (Some rt, err)))))"

section \<open>The comment attachment (commentable.go)\<close>

definition commentableNotFoundFmt :: "bytes \<Rightarrow> bytes \<Rightarrow> string" where
  "commentableNotFoundFmt a b = a @ '' not found with key '' @ b"

definition commentableTypeNotFoundFmt :: "bytes \<Rightarrow> string" where
  "commentableTypeNotFoundFmt kind = ''commentable type, '' @ kind @ '', not found''"

definition commentNotFoundFmt :: "bytes \<Rightarrow> bytes \<Rightarrow> bytes \<Rightarrow> string" where
  "commentNotFoundFmt cKey kind key =
     ''comment with key '' @ cKey @ '' not found for '' @ kind @ '' with id '' @ key"

definition commentsKey :: bytes where
  "commentsKey = ''comments''"

text \<open>The struct \<open>commentable{kind, key, db}\<close>; the database is passed beside it.\<close>

record commentable =
  cm_kind :: bytes
  cm_key :: bytes

text \<open>\<open>func (cm *commentable) ensure() error\<close>.\<close>

definition commentable_ensure :: "commentable \<Rightarrow> db \<Rightarrow> error option \<times> db" where
  "commentable_ensure cm d =
     (case Update d (\<lambda>t.
        case Bucket t [] (cm_kind cm) of
          None \<Rightarrow> ((), Some (Errorf (''resource '' @ [CHR 0x27] @ cm_kind cm @ [CHR 0x27] @ '' does not exist'')), t)
        | Some bucket \<Rightarrow>
            (case CreateBucketIfNotExists t bucket (cm_key cm) of
               Inl err \<Rightarrow> ((), Some err, t)
             | Inr (_, t1) \<Rightarrow> ((), None, t1)))
      of ((_, err), d') \<Rightarrow> (err, d'))"

text \<open>\<open>func (cm *commentable) exists() (found bool)\<close>.\<close>

definition commentable_exists :: "commentable \<Rightarrow> db \<Rightarrow> bool" where
  "commentable_exists cm d =
     fst (View d (\<lambda>t.
       (case Bucket t [] (cm_kind cm) of
          None \<Rightarrow> False
        | Some bucket \<Rightarrow> Bucket t bucket (cm_key cm) \<noteq> None,
        None)))"

text \<open>
  \<open>func (cm *commentable) save(c *comment) (*comment, error)\<close>. \<open>json.Marshal\<close> does
  not fail on a struct of two strings, so its error branch is left out. After the
  transaction the comment is cleared when an error occurred.
\<close>

definition commentable_save :: "commentable \<Rightarrow> comment option \<Rightarrow> db \<Rightarrow> (comment option \<times> error option) \<times> db" where
  "commentable_save cm c d =
     (case c of
        None \<Rightarrow> ((None, Some (Errorf ''comment should not be empty'')), d)
      | Some c \<Rightarrow>
          (case Update d (\<lambda>t.
             case Bucket t [] (cm_kind cm) of
               None \<Rightarrow> ((), Some (Errorf (commentableTypeNotFoundFmt (cm_kind cm))), t)
             | Some cmBucket \<Rightarrow>
                 (case Bucket t cmBucket (cm_key cm) of
                    None \<Rightarrow> ((), Some (Errorf (commentableNotFoundFmt (cm_key cm) (cm_kind cm))), t)
                  | Some rBucket \<Rightarrow>
                      (case CreateBucketIfNotExists t rBucket commentsKey of
                         Inl err \<Rightarrow>
                           ((), Some (Wrapped (''error setting up comments for '' @ cm_kind cm
                                  @ '' with key '' @ cm_key cm @ '' '') err), t)
                       | Inr (comments, t1) \<Rightarrow>
                           (let data = marshal_comment c
                            in case Put t1 comments (ID c) data of
                                 Inl err \<Rightarrow> ((), Some err, t1)
                               | Inr t2 \<Rightarrow> ((), None, t2)))))
           of
             ((_, None), d') \<Rightarrow> ((Some c, None), d')
           | ((_, Some err), d') \<Rightarrow> ((None, Some err), d')))"

text \<open>
  \<open>func (cm *commentable) add(c *comment) (*comment, error)\<close>. The identifier comes
  from \<open>betterguid.New()\<close>, a library that returns a fresh string of 20 characters;
  the identifier it returned is the argument \<open>guid\<close>.
\<close>

definition commentable_add :: "commentable \<Rightarrow> bytes \<Rightarrow> comment option \<Rightarrow> db \<Rightarrow> (comment option \<times> error option) \<times> db" where
  "commentable_add cm guid c d =
     (case c of
        None \<Rightarrow> ((None, Some (Errorf ''comment should not be empty'')), d)
      | Some c \<Rightarrow> commentable_save cm (Some (c\<lparr>ID := guid\<rparr>)) d)"

text \<open>
  \<open>func (cm *commentable) list() ([]*comment, error)\<close>. The slice is nil until the
  resource instance has been found, then empty, then grows by one comment per entry.
\<close>

definition list_visit :: "bytes \<Rightarrow> bytes option \<Rightarrow> comment list \<Rightarrow> comment list \<times> error option" where
  "list_visit k data comments =
     (case unmarshal_comment (case data of None \<Rightarrow> [] | Some v \<Rightarrow> v) comment_zero of
        (c, Some err) \<Rightarrow> (comments, Some err)
      | (c, None) \<Rightarrow> (comments @ [c], None))"

definition commentable_list :: "commentable \<Rightarrow> db \<Rightarrow> comment list option \<times> error option" where
  "commentable_list cm d =
     View d (\<lambda>t.
       case Bucket t [] (cm_kind cm) of
         None \<Rightarrow> (None, Some (Errorf (commentableTypeNotFoundFmt (cm_kind cm))))
       | Some cmBucket \<Rightarrow>
           (case Bucket t cmBucket (cm_key cm) of
              None \<Rightarrow> (None, Some (Errorf (commentableNotFoundFmt (cm_key cm) (cm_kind cm))))
            | Some rBucket \<Rightarrow>
                (case Bucket t rBucket commentsKey of
                   None \<Rightarrow> (Some [], None)
                 | Some komments \<Rightarrow>
                     (case ForEach t komments list_visit [] of
                        (comments, err) \<Rightarrow> (Some comments, err)))))"

text \<open>\<open>func (cm *commentable) get(cKey string) (c *comment, err error)\<close>.\<close>

definition commentable_get :: "commentable \<Rightarrow> bytes \<Rightarrow> db \<Rightarrow> comment option \<times> error option" where
  "commentable_get cm cKey d =
     View d (\<lambda>t.
       case Bucket t [] (cm_kind cm) of
         None \<Rightarrow> (None, Some (Errorf (commentableTypeNotFoundFmt (cm_kind cm))))
       | Some cmBucket \<Rightarrow>
           (case Bucket t cmBucket (cm_key cm) of
              None \<Rightarrow> (None, Some (Errorf (commentableNotFoundFmt (cm_kind cm) (cm_key cm))))
            | Some rBucket \<Rightarrow>
                (case Bucket t rBucket commentsKey of
                   None \<Rightarrow> (None, Some (Errorf (commentNotFoundFmt cKey (cm_kind cm) (cm_key cm))))
                 | Some comments \<Rightarrow>
                     (case Get t comments cKey of
                        None \<Rightarrow> (None, Some (Errorf (commentNotFoundFmt cKey (cm_kind cm) (cm_key cm))))
                      | Some cmm \<Rightarrow>
                          (case unmarshal_comment cmm comment_zero of
                             (c, err) \<Rightarrow> (Some c, err))))))"

text \<open>\<open>func (cm *commentable) remove(cKey string) error\<close>.\<close>

definition commentable_remove :: "commentable \<Rightarrow> bytes \<Rightarrow> db \<Rightarrow> error option \<times> db" where
  "commentable_remove cm cKey d =
     (case Update d (\<lambda>t.
        case Bucket t [] (cm_kind cm) of
          None \<Rightarrow> ((), Some (Errorf (commentableTypeNotFoundFmt (cm_kind cm))), t)
        | Some cmBucket \<Rightarrow>
            (case Bucket t cmBucket (cm_key cm) of
               None \<Rightarrow> ((), Some (Errorf (commentableNotFoundFmt (cm_key cm) (cm_kind cm))), t)
             | Some rBucket \<Rightarrow>
                 (case Bucket t rBucket commentsKey of
                    None \<Rightarrow>
                      ((), Some (Errorf (''comment with key '' @ cKey @ '' not found for ''
                             @ cm_kind cm @ '' resource with id '' @ cm_key cm)), t)
                  | Some comments \<Rightarrow>
                      (case Delete t comments cKey of
                         Inl err \<Rightarrow> ((), Some err, t)
                       | Inr t1 \<Rightarrow> ((), None, t1)))))
      of ((_, err), d') \<Rightarrow> (err, d'))"

section \<open>The vocabulary of the specification\<close>

text \<open>
  The resource-type container of \<open>kind\<close> is the top-level bucket of that name, the
  resource-instance sub-container is the bucket \<open>key\<close> nested in it, the comments
  sub-container is the bucket \<open>comments\<close> nested in the instance, and the ratings record
  is the record under \<open>ratings\<close> in the instance.
\<close>

definition type_container :: "db \<Rightarrow> bytes \<Rightarrow> bool" where
  "type_container d kind \<longleftrightarrow> Bucket d [] kind \<noteq> None"

definition instance_container :: "db \<Rightarrow> bytes \<Rightarrow> bytes \<Rightarrow> bool" where
  "instance_container d kind key \<longleftrightarrow> Bucket d [kind] key \<noteq> None"

definition comments_container :: "db \<Rightarrow> bytes \<Rightarrow> bytes \<Rightarrow> bool" where
  "comments_container d kind key \<longleftrightarrow> Bucket d [kind, key] commentsKey \<noteq> None"

definition ratings_record :: "db \<Rightarrow> bytes \<Rightarrow> bytes \<Rightarrow> bytes option" where
  "ratings_record d kind key = Get d [kind, key] ratingsKey"


text \<open>Every counter of an aggregate is at least 0.\<close>

definition non_negative :: "rating \<Rightarrow> bool" where
  "non_negative r \<longleftrightarrow>
     0 \<le>s FiveStars r \<and> 0 \<le>s FourStars r \<and> 0 \<le>s ThreeStars r \<and> 0 \<le>s TwoStars r \<and> 0 \<le>s OneStars r"

text \<open>
  The merge as the specification words it: the delta is added to the stored aggregate
  counter by counter (the addition of Go's \<open>int\<close>), and the floor of 0 is applied to
  every counter of the sum.
\<close>

definition floor0 :: "goint \<Rightarrow> goint" where
  "floor0 x = (if x <s 0 then 0 else x)"

definition merge_floor :: "rating \<Rightarrow> rating \<Rightarrow> rating" where
  "merge_floor stored delta =
     \<lparr>FiveStars = floor0 (FiveStars stored + FiveStars delta),
      FourStars = floor0 (FourStars stored + FourStars delta),
      ThreeStars = floor0 (ThreeStars stored + ThreeStars delta),
      TwoStars = floor0 (TwoStars stored + TwoStars delta),
      OneStars = floor0 (OneStars stored + OneStars delta)\<rparr>"

text \<open>The aggregates a sequence of deltas leaves one after the other, the floor applied at each step.\<close>

fun merged :: "rating \<Rightarrow> rating list \<Rightarrow> rating list" where
  "merged stored [] = []"
| "merged stored (delta # deltas) = merge_floor stored delta # merged (merge_floor stored delta) deltas"

text \<open>
  A sequence of calls of \<open>save\<close> on one rateable: what each call returns, paired with
  what \<open>get\<close> reads back from the store right after it.
\<close>

fun save_all :: "rateable \<Rightarrow> rating list \<Rightarrow> db \<Rightarrow> ((rating option \<times> error option) \<times> (rating option \<times> error option)) list" where
  "save_all r [] d = []"
| "save_all r (rt # rts) d =
     (case rateable_save r rt d of
        (returned, d') \<Rightarrow> (returned, rateable_get r d') # save_all r rts d')"

text \<open>
  The operations of the rating service on its store, and the store that a sequence of
  them leaves when it starts from the empty store. \<open>get\<close> runs in a read-only
  transaction and leaves the store as it is.
\<close>

datatype rating_op = Setup "bytes list" | Save rateable rating | Fetch rateable

fun apply_op :: "db \<Rightarrow> rating_op \<Rightarrow> db" where
  "apply_op d (Setup names) = snd (setup_names d names)"
| "apply_op d (Save r rt) = snd (rateable_save r rt d)"
| "apply_op d (Fetch r) = (case rateable_get r d of (rt, err) \<Rightarrow> d)"

definition store_after :: "rating_op list \<Rightarrow> db" where
  "store_after ops = foldl apply_op [] ops"

text \<open>
  The writing operations of the comment service on its store, and the store that a
  sequence of them leaves when it starts from the empty store (\<open>exists\<close>, \<open>list\<close> and
  \<open>get\<close> run in read-only transactions).
\<close>

datatype comment_op =
    SetupTypes "bytes list"
  | Ensure commentable
  | Add commentable bytes "comment option"
  | Replace commentable "comment option"
  | Remove commentable bytes

fun apply_comment_op :: "db \<Rightarrow> comment_op \<Rightarrow> db" where
  "apply_comment_op d (SetupTypes names) = snd (setup_names d names)"
| "apply_comment_op d (Ensure cm) = snd (commentable_ensure cm d)"
| "apply_comment_op d (Add cm guid c) = snd (commentable_add cm guid c d)"
| "apply_comment_op d (Replace cm c) = snd (commentable_save cm c d)"
| "apply_comment_op d (Remove cm cKey) = snd (commentable_remove cm cKey d)"

definition comment_store_after :: "comment_op list \<Rightarrow> db" where
  "comment_store_after ops = foldl apply_comment_op [] ops"

section \<open>Invariants of the stores\<close>

text \<open>
  Where a store keeps its records and how deep its buckets nest: every record lies in a
  bucket at depth \<open>n\<close> (under a key that satisfies \<open>P\<close>), and no bucket lies deeper than \<open>n\<close>.
\<close>

definition layout :: "nat \<Rightarrow> (bytes \<Rightarrow> bool) \<Rightarrow> db \<Rightarrow> bool" where
  "layout n P d \<longleftrightarrow>
     (\<forall>h k v. Get d h k = Some v \<longrightarrow> length h = n \<and> P k)
     \<and> (\<forall>h. bucket_at d h \<noteq> None \<longrightarrow> length h \<le> n)"

text \<open>
  The stores on which a sequence of saves on \<open>r\<close> cannot fail, with the aggregate
  \<open>cur\<close> they hold for \<open>r\<close>: the type container exists, the key of the instance holds
  no record in it, the ratings key of the instance holds no bucket, and the ratings
  record is absent (\<open>cur\<close> is zero) or is the encoding of \<open>cur\<close>.
\<close>

definition holds_rating :: "rateable \<Rightarrow> db \<Rightarrow> rating \<Rightarrow> bool" where
  "holds_rating r d cur \<longleftrightarrow>
     type_container d (r_kind r)
     \<and> Get d [r_kind r] (r_key r) = None
     \<and> Bucket d [r_kind r, r_key r] ratingsKey = None
     \<and> (ratings_record d (r_kind r) (r_key r) = None \<and> cur = rating_zero
        \<or> ratings_record d (r_kind r) (r_key r) = Some (marshal_rating cur))"

text \<open>Every ratings record of the store is the encoding of an aggregate with no negative counter.\<close>

definition records_ok :: "db \<Rightarrow> bool" where
  "records_ok d \<longleftrightarrow>
     (\<forall>kind key data. Get d [kind, key] ratingsKey = Some data \<longrightarrow>
        (\<exists>rt. data = marshal_rating rt \<and> non_negative rt))"

section \<open>Example stores\<close>

text \<open>
  The store of \<open>Test_commentable_get\<close> and \<open>Test_commentable_remove\<close>: one comment
  under the resource instance \<open>commentableID\<close> of the type \<open>commentable\<close>.
\<close>

definition one_comment_store :: db where
  \<open>one_comment_store =
     [(''commentable'', Nested [(''commentableID'', Nested [(''comments'', Nested
        [(''12345'', Record ''{"id":"12345","value":"something"}'')])])])]\<close>


text \<open>
  A store with two resource types, two instances of the first, two comments and a
  ratings record under the first instance, and the same store without the comment
  \<open>c1\<close> of the instance \<open>b1\<close> of \<open>books\<close>.
\<close>

definition library_store :: db where
  "library_store =
     [(''books'', Nested
        [(''b1'', Nested [(''comments'', Nested [(''c1'', Record ''one''), (''c2'', Record ''two'')]),
                          (''ratings'', Record ''five'')]),
         (''b2'', Nested [(''comments'', Nested [(''c1'', Record ''three'')])])]),
      (''authors'', Nested [(''b1'', Nested [(''comments'', Nested [(''c1'', Record ''four'')])])])]"

definition library_store_removed :: db where
  "library_store_removed =
     [(''books'', Nested
        [(''b1'', Nested [(''comments'', Nested [(''c2'', Record ''two'')]),
                          (''ratings'', Record ''five'')]),
         (''b2'', Nested [(''comments'', Nested [(''c1'', Record ''three'')])])]),
      (''authors'', Nested [(''b1'', Nested [(''comments'', Nested [(''c1'', Record ''four'')])])])]"

section \<open>Facts about the store\<close>

lemma bucket_at_snoc:
  "bucket_at t (h @ [n]) =
     (case bucket_at t h of
        None \<Rightarrow> None
      | Some b \<Rightarrow> (case map_of b n of Some (Nested c) \<Rightarrow> Some c | _ \<Rightarrow> None))"
  by (induction h arbitrary: t) (auto split: option.splits node.splits)

lemma Bucket_eq:
  "Bucket t h n = (if bucket_at t (h @ [n]) = None then None else Some (h @ [n]))"
  by (auto simp: Bucket_def bucket_at_snoc split: option.splits node.splits)

lemma bucket_at_replace_at_prefix:
  "bucket_at t h = Some b \<Longrightarrow>
   bucket_at (replace_at (h @ h') new t) h = Some (replace_at h' new b)"
  by (induction h arbitrary: t) (auto simp: update_conv' split: option.splits node.splits)

lemma bucket_at_replace_at_same:
  "bucket_at t h = Some b \<Longrightarrow> bucket_at (replace_at h new t) h = Some new"
  using bucket_at_replace_at_prefix [of t h b "[]" new] by simp

lemma Get_Cons:
  "Get t (n # ns) k = (case map_of t n of Some (Nested c) \<Rightarrow> Get c ns k | _ \<Rightarrow> None)"
  by (simp add: Get_def split: option.splits node.splits)

lemma Get_Nil:
  "Get t [] k = (case map_of t k of Some (Record v) \<Rightarrow> Some v | _ \<Rightarrow> None)"
  by (simp add: Get_def)

lemma bucket_at_append:
  "bucket_at t (h @ h') = (case bucket_at t h of None \<Rightarrow> None | Some b \<Rightarrow> bucket_at b h')"
  by (induction h arbitrary: t) (auto split: option.splits node.splits)

lemma bucket_at_replace_at_below:
  "bucket_at t h = Some b \<Longrightarrow> bucket_at (replace_at h new t) (h @ h') = bucket_at new h'"
  by (simp add: bucket_at_append bucket_at_replace_at_same)

lemma CreateBucketIfNotExists_existing:
  "bucket_at t (h @ [n]) \<noteq> None \<Longrightarrow> n \<noteq> [] \<Longrightarrow>
   CreateBucketIfNotExists t h n = Inr (h @ [n], t)"
  by (auto simp: CreateBucketIfNotExists_def CreateBucket_def bucket_at_snoc
      split: option.splits node.splits)

lemma CreateBucketIfNotExists_new:
  "bucket_at t h = Some b \<Longrightarrow> map_of b n = None \<Longrightarrow> n \<noteq> [] \<Longrightarrow>
   CreateBucketIfNotExists t h n = Inr (h @ [n], replace_at h (AList.update n (Nested []) b) t)"
  by (simp add: CreateBucketIfNotExists_def CreateBucket_def)

lemma CreateBucketIfNotExists_empty_name:
  "CreateBucketIfNotExists t h [] = Inl ErrBucketNameRequired"
  by (simp add: CreateBucketIfNotExists_def CreateBucket_def)

lemma Put_ok:
  "bucket_at t h = Some b \<Longrightarrow> k \<noteq> [] \<Longrightarrow> \<forall>c. map_of b k \<noteq> Some (Nested c) \<Longrightarrow>
   Put t h k v = Inr (replace_at h (AList.update k (Record v) b) t)"
  by (auto simp: Put_def split: option.splits node.splits)

text \<open>
  Deleting a record from the bucket at \<open>p\<close> changes what \<open>Get\<close> returns for that key of
  that bucket and nothing else, and leaves every bucket where it was.
\<close>

lemma Get_delete_frame:
  assumes "bucket_at t p = Some b" and "\<forall>c. map_of b k \<noteq> Some (Nested c)"
  shows "Get (replace_at p (AList.delete k b) t) h k' = (if h = p \<and> k' = k then None else Get t h k')"
  using assms
proof (induction p arbitrary: t h)
  case Nil
  then have tb: "t = b" by simp
  show ?case
  proof (cases h)
    case Nil
    with tb show ?thesis by (auto simp: Get_Nil delete_conv')
  next
    case (Cons m ms)
    with tb Nil.prems(2) show ?thesis
      by (cases "m = k") (auto simp: Get_Cons delete_conv' split: option.splits node.splits)
  qed
next
  case (Cons n ns)
  from Cons.prems(1) obtain c where c: "map_of t n = Some (Nested c)" and b: "bucket_at c ns = Some b"
    by (auto split: option.splits node.splits)
  show ?case
  proof (cases h)
    case Nil
    with c show ?thesis
      by (cases "k' = n") (auto simp: Get_Nil update_conv')
  next
    case h: (Cons m ms)
    show ?thesis
    proof (cases "m = n")
      case True
      with h c Cons.IH [OF b Cons.prems(2), of ms] show ?thesis
        by (simp add: Get_Cons update_conv')
    next
      case False
      with h c show ?thesis
        by (simp add: Get_Cons update_conv')
    qed
  qed
qed

lemma bucket_at_delete_frame:
  assumes "bucket_at t p = Some b" and "\<forall>c. map_of b k \<noteq> Some (Nested c)"
  shows "(bucket_at (replace_at p (AList.delete k b) t) h = None) = (bucket_at t h = None)"
  using assms
proof (induction p arbitrary: t h)
  case Nil
  then have tb: "t = b" by simp
  show ?case
  proof (cases h)
    case Nil
    then show ?thesis by simp
  next
    case (Cons m ms)
    with tb Nil.prems(2) show ?thesis
      by (cases "m = k") (auto simp: delete_conv' split: option.splits node.splits)
  qed
next
  case (Cons n ns)
  from Cons.prems(1) obtain c where c: "map_of t n = Some (Nested c)" and b: "bucket_at c ns = Some b"
    by (auto split: option.splits node.splits)
  show ?case
  proof (cases h)
    case Nil
    then show ?thesis by simp
  next
    case h: (Cons m ms)
    show ?thesis
    proof (cases "m = n")
      case True
      with h c Cons.IH [OF b Cons.prems(2), of ms] show ?thesis
        by (simp add: update_conv')
    next
      case False
      with h c show ?thesis
        by (simp add: update_conv')
    qed
  qed
qed

lemma Bucket_delete_frame:
  assumes "bucket_at t p = Some b" and "\<forall>c. map_of b k \<noteq> Some (Nested c)"
  shows "Bucket (replace_at p (AList.delete k b) t) h n = Bucket t h n"
  using bucket_at_delete_frame [OF assms, of "h @ [n]"] by (simp add: Bucket_eq)

lemma Get_append:
  "bucket_at t p = Some b \<Longrightarrow> Get t (p @ h') k = Get b h' k"
  by (simp add: Get_def bucket_at_append)

lemma Get_replace_at_below:
  "bucket_at t p = Some b \<Longrightarrow> Get (replace_at p new t) (p @ h') k = Get new h' k"
  by (simp add: Get_def bucket_at_replace_at_below)

lemma Get_replace_at_other:
  assumes "bucket_at t p = Some b" and "\<forall>h'. h \<noteq> p @ h'"
  shows "Get (replace_at p new t) h k = Get t h k"
  using assms
proof (induction p arbitrary: t h)
  case Nil
  then show ?case by simp
next
  case (Cons n ns)
  from Cons.prems(1) obtain c where c: "map_of t n = Some (Nested c)" and b: "bucket_at c ns = Some b"
    by (auto split: option.splits node.splits)
  show ?case
  proof (cases h)
    case Nil
    with c show ?thesis
      by (cases "k = n") (auto simp: Get_Nil update_conv')
  next
    case h: (Cons m ms)
    show ?thesis
    proof (cases "m = n")
      case True
      with h Cons.prems(2) have "\<forall>h'. ms \<noteq> ns @ h'" by auto
      from Cons.IH [OF b this] True h c show ?thesis
        by (simp add: Get_Cons update_conv')
    next
      case False
      with h c show ?thesis
        by (simp add: Get_Cons update_conv')
    qed
  qed
qed

lemma bucket_at_replace_at_other:
  assumes "bucket_at t p = Some b" and "\<forall>h'. h \<noteq> p @ h'"
  shows "(bucket_at (replace_at p new t) h = None) = (bucket_at t h = None)"
  using assms
proof (induction p arbitrary: t h)
  case Nil
  then show ?case by simp
next
  case (Cons n ns)
  from Cons.prems(1) obtain c where c: "map_of t n = Some (Nested c)" and b: "bucket_at c ns = Some b"
    by (auto split: option.splits node.splits)
  show ?case
  proof (cases h)
    case Nil
    then show ?thesis by simp
  next
    case h: (Cons m ms)
    show ?thesis
    proof (cases "m = n")
      case True
      with h Cons.prems(2) have "\<forall>h'. ms \<noteq> ns @ h'" by auto
      from Cons.IH [OF b this] True h c show ?thesis
        by (simp add: update_conv')
    next
      case False
      with h c show ?thesis
        by (simp add: update_conv')
    qed
  qed
qed

text \<open>Putting a record changes what \<open>Get\<close> returns for that key of that bucket only.\<close>

lemma Get_put_frame:
  assumes "bucket_at t p = Some b" and "\<forall>c. map_of b k \<noteq> Some (Nested c)"
  shows "Get (replace_at p (AList.update k (Record v) b) t) h k'
         = (if h = p \<and> k' = k then Some v else Get t h k')"
proof (cases "\<exists>h'. h = p @ h'")
  case True
  then obtain h' where h: "h = p @ h'" by blast
  have "Get (AList.update k (Record v) b) h' k' = (if h' = [] \<and> k' = k then Some v else Get b h' k')"
  proof (cases h')
    case Nil
    then show ?thesis by (simp add: Get_Nil update_conv')
  next
    case (Cons m ms)
    with assms(2) show ?thesis
      by (cases "m = k") (auto simp: Get_Cons update_conv' split: option.splits node.splits)
  qed
  with h assms(1) show ?thesis
    by (simp add: Get_replace_at_below Get_append)
next
  case False
  then have "\<forall>h'. h \<noteq> p @ h'" by blast
  from Get_replace_at_other [OF assms(1) this] False show ?thesis by auto
qed

lemma Get_empty: "Get [] h k = None"
  by (cases h) (simp_all add: Get_def)

text \<open>Creating an empty bucket under a free key changes no answer of \<open>Get\<close>.\<close>

lemma Get_create_frame:
  assumes "bucket_at t p = Some b" and "map_of b n = None"
  shows "Get (replace_at p (AList.update n (Nested []) b) t) h k = Get t h k"
proof (cases "\<exists>h'. h = p @ h'")
  case True
  then obtain h' where h: "h = p @ h'" by blast
  have "Get (AList.update n (Nested []) b) h' k = Get b h' k"
  proof (cases h')
    case Nil
    with assms(2) show ?thesis by (cases "k = n") (simp_all add: Get_Nil update_conv')
  next
    case (Cons m ms)
    with assms(2) show ?thesis
      by (cases "m = n") (simp_all add: Get_Cons Get_empty update_conv')
  qed
  with h assms(1) show ?thesis
    by (simp add: Get_replace_at_below Get_append)
next
  case False
  then have "\<forall>h'. h \<noteq> p @ h'" by blast
  from Get_replace_at_other [OF assms(1) this] show ?thesis .
qed

lemma Get_CreateBucketIfNotExists:
  "CreateBucketIfNotExists t p n = Inr (h', t') \<Longrightarrow> Get t' h k = Get t h k"
  by (auto simp: CreateBucketIfNotExists_def CreateBucket_def Get_create_frame
      split: if_splits option.splits node.splits sum.splits)

lemma Get_setup_loop:
  "setup_loop cmts t = (u, err, t') \<Longrightarrow> Get t' h k = Get t h k"
proof (induction cmts arbitrary: t)
  case Nil
  then show ?case by simp
next
  case (Cons b cmts)
  show ?case
  proof (cases "CreateBucketIfNotExists t [] b")
    case (Inl e)
    with Cons.prems show ?thesis by simp
  next
    case (Inr p)
    obtain h1 t1 where p: "p = (h1, t1)" by (cases p)
    from Cons.prems Inr p have "setup_loop cmts t1 = (u, err, t')" by simp
    from Cons.IH [OF this] Get_CreateBucketIfNotExists [of t "[]" b h1 t1] Inr p
    show ?thesis by simp
  qed
qed

lemma Get_setup_names: "Get (snd (setup_names d names)) h k = Get d h k"
proof (cases "setup_loop names d")
  case (fields u err t')
  from Get_setup_loop [OF fields] fields show ?thesis
    by (cases err) (simp_all add: setup_names_def Update_def)
qed

lemma bucket_at_replace_at_apart:
  "\<not> prefix h p \<Longrightarrow> \<not> prefix p h \<Longrightarrow> bucket_at (replace_at p new t) h = bucket_at t h"
proof (induction p arbitrary: t h)
  case Nil
  then show ?case by simp
next
  case (Cons n ns)
  show ?case
  proof (cases h)
    case Nil
    with Cons.prems show ?thesis by simp
  next
    case h: (Cons m ms)
    show ?thesis
    proof (cases "m = n")
      case True
      with h Cons.prems have "\<not> prefix ms ns" "\<not> prefix ns ms" by simp_all
      from Cons.IH [OF this] True h show ?thesis
        by (auto simp: update_conv' split: option.splits node.splits)
    next
      case False
      with h show ?thesis
        by (auto simp: update_conv' split: option.splits node.splits)
    qed
  qed
qed

lemma Put_Inr:
  "Put t h k v = Inr t' \<Longrightarrow>
   \<exists>b. bucket_at t h = Some b \<and> (\<forall>c. map_of b k \<noteq> Some (Nested c))
       \<and> t' = replace_at h (AList.update k (Record v) b) t"
  by (auto simp: Put_def split: if_splits option.splits node.splits)

lemma Get_Put:
  "Put t h k v = Inr t' \<Longrightarrow> Get t' h' k' = (if h' = h \<and> k' = k then Some v else Get t h' k')"
  by (drule Put_Inr) (auto simp: Get_put_frame)

lemma CreateBucketIfNotExists_handle:
  "CreateBucketIfNotExists t h n = Inr (h', t') \<Longrightarrow> h' = h @ [n]"
  by (auto simp: CreateBucketIfNotExists_def CreateBucket_def
      split: if_splits option.splits node.splits sum.splits)

lemma bucket_at_put_frame:
  assumes "bucket_at t p = Some b" and "\<forall>c. map_of b k \<noteq> Some (Nested c)"
  shows "(bucket_at (replace_at p (AList.update k (Record v) b) t) h = None) = (bucket_at t h = None)"
proof (cases "\<exists>h'. h = p @ h'")
  case True
  then obtain h' where h: "h = p @ h'" by blast
  have "(bucket_at (AList.update k (Record v) b) h' = None) = (bucket_at b h' = None)"
  proof (cases h')
    case Nil
    then show ?thesis by simp
  next
    case (Cons m ms)
    with assms(2) show ?thesis
      by (cases "m = k") (auto simp: update_conv' split: option.splits node.splits)
  qed
  moreover have "bucket_at (replace_at p (AList.update k (Record v) b) t) (p @ h')
                 = bucket_at (AList.update k (Record v) b) h'"
    by (rule bucket_at_replace_at_below [OF assms(1)])
  moreover have "bucket_at t (p @ h') = bucket_at b h'"
    using assms(1) by (simp add: bucket_at_append)
  ultimately show ?thesis using h by simp
next
  case False
  then have "\<forall>h'. h \<noteq> p @ h'" by blast
  from bucket_at_replace_at_other [OF assms(1) this] show ?thesis .
qed

lemma bucket_at_empty: "bucket_at [] h = (if h = [] then Some [] else None)"
  by (cases h) simp_all

lemma bucket_at_create_frame:
  assumes "bucket_at t p = Some b" and "map_of b n = None"
  shows "(bucket_at (replace_at p (AList.update n (Nested []) b) t) h = None)
         = (h \<noteq> p @ [n] \<and> bucket_at t h = None)"
proof (cases "\<exists>h'. h = p @ h'")
  case True
  then obtain h' where h: "h = p @ h'" by blast
  have "(bucket_at (AList.update n (Nested []) b) h' = None) = (h' \<noteq> [n] \<and> bucket_at b h' = None)"
  proof (cases h')
    case Nil
    then show ?thesis by simp
  next
    case (Cons m ms)
    with assms(2) show ?thesis
      by (cases "m = n") (auto simp: update_conv' bucket_at_empty)
  qed
  moreover have "bucket_at (replace_at p (AList.update n (Nested []) b) t) (p @ h')
                 = bucket_at (AList.update n (Nested []) b) h'"
    by (rule bucket_at_replace_at_below [OF assms(1)])
  moreover have "bucket_at t (p @ h') = bucket_at b h'"
    using assms(1) by (simp add: bucket_at_append)
  ultimately show ?thesis using h by simp
next
  case False
  then have other: "\<forall>h'. h \<noteq> p @ h'" by blast
  then have "h \<noteq> p @ [n]" by blast
  with bucket_at_replace_at_other [OF assms(1) other] show ?thesis by simp
qed

lemma bucket_at_Put:
  "Put t h k v = Inr t' \<Longrightarrow> (bucket_at t' h' = None) = (bucket_at t h' = None)"
  by (drule Put_Inr) (auto simp: bucket_at_put_frame simp del: bucket_at.simps replace_at.simps)

lemma CreateBucketIfNotExists_Inr:
  "CreateBucketIfNotExists t p n = Inr (h', t') \<Longrightarrow>
   t' = t \<or> (\<exists>b. bucket_at t p = Some b \<and> map_of b n = None
                 \<and> t' = replace_at p (AList.update n (Nested []) b) t)"
  by (auto simp: CreateBucketIfNotExists_def CreateBucket_def
      split: if_splits option.splits node.splits sum.splits)

lemma bucket_at_CreateBucketIfNotExists:
  assumes "CreateBucketIfNotExists t p n = Inr (h', t')" and "bucket_at t' h \<noteq> None"
  shows "bucket_at t h \<noteq> None \<or> h = p @ [n]"
  using CreateBucketIfNotExists_Inr [OF assms(1)]
proof
  assume "t' = t"
  with assms(2) show ?thesis by simp
next
  assume "\<exists>b. bucket_at t p = Some b \<and> map_of b n = None
            \<and> t' = replace_at p (AList.update n (Nested []) b) t"
  then obtain b where b: "bucket_at t p = Some b" and n: "map_of b n = None"
    and t': "t' = replace_at p (AList.update n (Nested []) b) t" by blast
  from bucket_at_create_frame [OF b n, of h] assms(2) show ?thesis
    unfolding t' by auto
qed

lemma layout_empty: "layout n P []"
  by (auto simp: layout_def Get_empty bucket_at_empty)

lemma layout_record: "layout n P d \<Longrightarrow> Get d h k = Some v \<Longrightarrow> length h = n \<and> P k"
  unfolding layout_def by blast

lemma layout_bucket: "layout n P d \<Longrightarrow> bucket_at d h \<noteq> None \<Longrightarrow> length h \<le> n"
  unfolding layout_def by blast

lemma layout_create:
  assumes "layout n P t" and "CreateBucketIfNotExists t p name = Inr (h', t')" and "length p < n"
  shows "layout n P t'"
  unfolding layout_def
proof (rule conjI; intro allI impI)
  fix h k v assume "Get t' h k = Some v"
  then have "Get t h k = Some v"
    using Get_CreateBucketIfNotExists [OF assms(2), of h k] by simp
  then show "length h = n \<and> P k" by (rule layout_record [OF assms(1)])
next
  fix h assume "bucket_at t' h \<noteq> None"
  from bucket_at_CreateBucketIfNotExists [OF assms(2) this] show "length h \<le> n"
  proof
    assume "bucket_at t h \<noteq> None"
    then show ?thesis by (rule layout_bucket [OF assms(1)])
  next
    assume "h = p @ [name]"
    with assms(3) show ?thesis by simp
  qed
qed

lemma layout_Put:
  assumes "layout n P t" and "Put t p k v = Inr t'" and "length p = n" and "P k"
  shows "layout n P t'"
  unfolding layout_def
proof (rule conjI; intro allI impI)
  fix h k' v' assume g: "Get t' h k' = Some v'"
  show "length h = n \<and> P k'"
  proof (cases "h = p \<and> k' = k")
    case True
    with assms(3,4) show ?thesis by simp
  next
    case False
    with g Get_Put [OF assms(2), of h k'] have "Get t h k' = Some v'" by auto
    then show ?thesis by (rule layout_record [OF assms(1)])
  qed
next
  fix h assume "bucket_at t' h \<noteq> None"
  with bucket_at_Put [OF assms(2), of h] have "bucket_at t h \<noteq> None" by simp
  then show "length h \<le> n" by (rule layout_bucket [OF assms(1)])
qed

lemma layout_setup_loop:
  "layout n P t \<Longrightarrow> 0 < n \<Longrightarrow> setup_loop cmts t = (u, err, t') \<Longrightarrow> layout n P t'"
proof (induction cmts arbitrary: t)
  case Nil
  then show ?case by simp
next
  case (Cons b cmts)
  show ?case
  proof (cases "CreateBucketIfNotExists t [] b")
    case (Inl e)
    with Cons.prems show ?thesis by simp
  next
    case (Inr q)
    obtain h1 t1 where q: "q = (h1, t1)" by (cases q)
    from Cons.prems(1,2) Inr q have "layout n P t1" by (auto intro: layout_create)
    moreover from Cons.prems(3) Inr q have "setup_loop cmts t1 = (u, err, t')" by simp
    ultimately show ?thesis using Cons.IH Cons.prems(2) by blast
  qed
qed

lemma layout_setup_names: "layout n P d \<Longrightarrow> 0 < n \<Longrightarrow> layout n P (snd (setup_names d names))"
proof (cases "setup_loop names d")
  case (fields u err t')
  assume "layout n P d" and "0 < n"
  from layout_setup_loop [OF this fields] \<open>layout n P d\<close> fields show ?thesis
    by (cases err) (simp_all add: setup_names_def Update_def)
qed

section \<open>Facts about the aggregate\<close>

lemma non_negative_ensureNotNegative: "non_negative (ensureNotNegative r)"
  by (simp add: non_negative_def ensureNotNegative_def Let_def word_sle_eq word_sless_alt)

lemma ensureNotNegative_add_merge_floor:
  "ensureNotNegative (rating_add stored delta) = merge_floor stored delta"
  by (simp add: ensureNotNegative_def rating_add_def merge_floor_def floor0_def Let_def)

lemma non_negative_merge_floor: "non_negative (merge_floor stored delta)"
  using non_negative_ensureNotNegative [of "rating_add stored delta"]
  by (simp add: ensureNotNegative_add_merge_floor)

lemma non_negative_merged: "a \<in> set (merged stored deltas) \<Longrightarrow> non_negative a"
  by (induction deltas arbitrary: stored) (auto simp: non_negative_merge_floor)

lemma floor0_no_overflow:
  assumes "- (2 ^ 63) \<le> sint a + sint b" and "sint a + sint b < 2 ^ 63"
  shows "sint (floor0 (a + b)) = max 0 (sint a + sint b)"
proof -
  have "sint (a + b) = sint a + sint b"
    using assms by (simp add: sint_word_ariths signed_take_bit_int_eq_self)
  then show ?thesis
    by (simp add: floor0_def word_sless_alt)
qed

section \<open>Facts about the JSON model\<close>

lemma lt10_cases:
  "n < 10 \<Longrightarrow> n = 0 \<or> n = 1 \<or> n = 2 \<or> n = 3 \<or> n = 4 \<or> n = 5 \<or> n = 6 \<or> n = 7 \<or> n = 8 \<or> n = (9::nat)"
  by arith

lemma digit_val_digit_char: "n < 10 \<Longrightarrow> digit_val (digit_char n) = n"
  by (drule lt10_cases) (auto simp: digit_val_def digit_char_def)

lemma is_digit_digit_char: "n < 10 \<Longrightarrow> is_digit (digit_char n)"
  by (drule lt10_cases) (auto simp: is_digit_def digit_char_def)

lemma digit_char_zero: "n < 10 \<Longrightarrow> digit_char n = CHR ''0'' \<Longrightarrow> n = 0"
  by (drule lt10_cases) (auto simp: digit_char_def)

lemma digits10_small: "n < 10 \<Longrightarrow> digits10 n = [digit_char n]"
  by (simp add: digits10.simps)

lemma digits10_large: "\<not> n < 10 \<Longrightarrow> digits10 n = digits10 (n div 10) @ [digit_char (n mod 10)]"
  by (subst digits10.simps) simp

lemma digits10_not_Nil: "digits10 n \<noteq> []"
  by (cases "n < 10") (simp_all add: digits10_small digits10_large)

lemma digits10_digits: "c \<in> set (digits10 n) \<Longrightarrow> is_digit c"
proof (induction n arbitrary: c rule: digits10.induct)
  case (1 n)
  show ?case
  proof (cases "n < 10")
    case True
    with "1.prems" show ?thesis by (simp add: digits10_small is_digit_digit_char)
  next
    case False
    with "1.prems" "1.IH" show ?thesis
      by (auto simp: digits10_large is_digit_digit_char)
  qed
qed

lemma val10_snoc: "val10 (ds @ [d]) = 10 * val10 ds + digit_val d"
  by (simp add: val10_def)

lemma val10_digits10: "val10 (digits10 n) = n"
proof (induction n rule: digits10.induct)
  case (1 n)
  show ?case
  proof (cases "n < 10")
    case True
    then show ?thesis by (simp add: digits10_small val10_def digit_val_digit_char)
  next
    case False
    with "1.IH" show ?thesis
      by (simp add: digits10_large val10_snoc digit_val_digit_char)
  qed
qed

lemma digits10_leading_zero: "hd (digits10 n) = CHR ''0'' \<Longrightarrow> n = 0"
proof (induction n rule: digits10.induct)
  case (1 n)
  show ?case
  proof (cases "n < 10")
    case True
    with "1.prems" show ?thesis by (simp add: digits10_small digit_char_zero)
  next
    case False
    with "1.prems" have "hd (digits10 (n div 10)) = CHR ''0''"
      by (simp add: digits10_large digits10_not_Nil)
    with "1.IH" False have "n div 10 = 0" by simp
    with False show ?thesis by simp
  qed
qed

lemma digits10_zero: "digits10 0 = ''0''"
  by (simp add: digits10_small digit_char_def)

lemma takeWhile_digits10:
  "(rest = [] \<or> \<not> is_digit (hd rest)) \<Longrightarrow> takeWhile is_digit (digits10 n @ rest) = digits10 n"
  by (cases rest) (auto simp: takeWhile_append2 digits10_digits)

lemma dropWhile_digits10:
  "(rest = [] \<or> \<not> is_digit (hd rest)) \<Longrightarrow> dropWhile is_digit (digits10 n @ rest) = rest"
  by (cases rest) (auto simp: dropWhile_append2 digits10_digits)

lemma hd_digits10_not_minus: "hd (digits10 n) \<noteq> CHR ''-''"
proof -
  have "hd (digits10 n) \<in> set (digits10 n)" by (simp add: digits10_not_Nil)
  then have "is_digit (hd (digits10 n))" by (rule digits10_digits)
  then show ?thesis by (auto simp: is_digit_def)
qed

lemma read_int_itoa:
  assumes "rest = [] \<or> \<not> is_digit (hd rest)"
  shows "read_int (itoa i @ rest) = Some (i, rest)"
proof (cases "i < 0")
  case True
  have "\<not> (hd (digits10 (nat (- i))) = CHR ''0'' \<and> 1 < length (digits10 (nat (- i))))"
    using digits10_leading_zero [of "nat (- i)"] True by auto
  with True assms show ?thesis
    by (simp add: read_int_def itoa_def Let_def takeWhile_digits10 dropWhile_digits10
        digits10_not_Nil val10_digits10)
next
  case False
  have nz: "\<not> (hd (digits10 (nat i)) = CHR ''0'' \<and> 1 < length (digits10 (nat i)))"
    using digits10_leading_zero [of "nat i"] by (auto simp: digits10_zero)
  have hd: "hd (digits10 (nat i) @ rest) \<noteq> CHR ''-''"
    using hd_digits10_not_minus [of "nat i"] by (simp add: digits10_not_Nil)
  from False assms nz hd show ?thesis
    by (simp add: read_int_def itoa_def Let_def takeWhile_digits10 dropWhile_digits10
        digits10_not_Nil val10_digits10)
qed

lemma itoa_not_Nil: "itoa i \<noteq> []"
  by (simp add: itoa_def digits10_not_Nil)

lemma hd_itoa: "hd (itoa i) = CHR ''-'' \<or> is_digit (hd (itoa i))"
proof -
  have "is_digit (hd (digits10 n))" for n
    by (rule digits10_digits [of _ n]) (simp add: digits10_not_Nil)
  then show ?thesis by (simp add: itoa_def)
qed

lemma lex_itoa:
  assumes "rest = [] \<or> \<not> is_digit (hd rest)"
  shows "lex (itoa i @ rest) = map_option ((#) (Num i)) (lex rest)"
proof -
  obtain c cs where ics: "itoa i = c # cs" using itoa_not_Nil [of i] by (cases "itoa i") auto
  with hd_itoa [of i] have c: "c = CHR ''-'' \<or> is_digit c" by simp
  then have "\<not> is_space c" "c \<noteq> CHR ''{''" "c \<noteq> CHR ''}''" "c \<noteq> CHR '':''" "c \<noteq> CHR '',''" "c \<noteq> dquote"
    by (auto simp: is_digit_def is_space_def dquote_def)
  moreover have "read_int (c # cs @ rest) = Some (i, rest)"
    using read_int_itoa [OF assms, of i] ics by simp
  ultimately show ?thesis
    by (simp add: ics lex.simps)
qed

lemma int_value_sint: "int_value (Num (sint (w :: goint))) = Some w"
proof -
  have "- (2 ^ 63) \<le> sint w" "sint w < 2 ^ 63"
    using sint_ge [of w] sint_lt [of w] by simp_all
  then show ?thesis by (simp add: int_value_def)
qed

lemma lex_marshal_rating:
  \<open>lex (marshal_rating r) =
     Some [LBrace, Str ''five_stars'', Colon, Num (sint (FiveStars r)), Comma,
           Str ''four_stars'', Colon, Num (sint (FourStars r)), Comma,
           Str ''three_stars'', Colon, Num (sint (ThreeStars r)), Comma,
           Str ''two_stars'', Colon, Num (sint (TwoStars r)), Comma,
           Str ''one_stars'', Colon, Num (sint (OneStars r)), RBrace]\<close>
  by (simp add: marshal_rating_def lex.simps lex_itoa is_space_def dquote_def backslash_def
      is_digit_def)

theorem unmarshal_marshal_rating:
  "unmarshal_rating (marshal_rating r) r0 = (r, None)"
  by (simp add: unmarshal_rating_def parse_object_def lex_marshal_rating assign_rating_def
      lower_char_def int_value_sint rating_field_def)

subsection \<open>Strings\<close>









section \<open>Reading without a record\<close>

text \<open>
  C6. For every rateable whose resource-type container and resource-instance
  sub-container both exist but which holds no ratings record, \<open>get\<close> returns the all-zero
  aggregate and no error.
\<close>

theorem rateable_get_without_record:
  assumes "type_container d (r_kind r)"
    and "instance_container d (r_kind r) (r_key r)"
    and "ratings_record d (r_kind r) (r_key r) = None"
  shows "rateable_get r d = (Some rating_zero, None)"
  using assms
  by (simp add: rateable_get_def View_def type_container_def instance_container_def
      ratings_record_def Bucket_eq split: if_splits)

theorem rateable_get_without_record_witness:
  "type_container [(''rateable'', Nested [(''rateableKey'', Nested [])])] ''rateable''
   \<and> instance_container [(''rateable'', Nested [(''rateableKey'', Nested [])])] ''rateable'' ''rateableKey''
   \<and> ratings_record [(''rateable'', Nested [(''rateableKey'', Nested [])])] ''rateable'' ''rateableKey'' = None
   \<and> rateable_get \<lparr>r_kind = ''rateable'', r_key = ''rateableKey''\<rparr>
         [(''rateable'', Nested [(''rateableKey'', Nested [])])] = (Some rating_zero, None)"
  using rateable_get_without_record
    [of "[(''rateable'', Nested [(''rateableKey'', Nested [])])]"
        "\<lparr>r_kind = ''rateable'', r_key = ''rateableKey''\<rparr>"]
  by (simp add: type_container_def instance_container_def ratings_record_def Bucket_def Get_def)

text \<open>
  C9. For every commentable whose resource-type container and resource-instance
  sub-container exist but whose comments sub-container is absent, \<open>list\<close> returns an
  empty sequence (not a nil one) and no error.
\<close>

theorem commentable_list_without_comments:
  assumes "type_container d (cm_kind cm)"
    and "instance_container d (cm_kind cm) (cm_key cm)"
    and "\<not> comments_container d (cm_kind cm) (cm_key cm)"
  shows "commentable_list cm d = (Some [], None)"
  using assms
  by (simp add: commentable_list_def View_def type_container_def instance_container_def
      comments_container_def Bucket_eq split: if_splits)

theorem commentable_list_without_comments_witness:
  "type_container [(''commentable'', Nested [(''commentableID'', Nested [])])] ''commentable''
   \<and> instance_container [(''commentable'', Nested [(''commentableID'', Nested [])])] ''commentable'' ''commentableID''
   \<and> \<not> comments_container [(''commentable'', Nested [(''commentableID'', Nested [])])] ''commentable'' ''commentableID''
   \<and> commentable_list \<lparr>cm_kind = ''commentable'', cm_key = ''commentableID''\<rparr>
         [(''commentable'', Nested [(''commentableID'', Nested [])])] = (Some [], None)"
  using commentable_list_without_comments
    [of "[(''commentable'', Nested [(''commentableID'', Nested [])])]"
        "\<lparr>cm_kind = ''commentable'', cm_key = ''commentableID''\<rparr>"]
  by (simp add: type_container_def instance_container_def comments_container_def Bucket_def)

section \<open>Provisioning resource types\<close>

lemma setup_loop_empty_name:
  "[] \<in> set cmts \<Longrightarrow> \<exists>err t'. setup_loop cmts t = ((), Some err, t')"
proof (induction cmts arbitrary: t)
  case Nil
  then show ?case by simp
next
  case (Cons b cmts)
  show ?case
  proof (cases "CreateBucketIfNotExists t [] b")
    case (Inl err)
    then show ?thesis by simp
  next
    case (Inr p)
    then have "b \<noteq> []" by (auto simp: CreateBucketIfNotExists_empty_name)
    with Cons.prems have "[] \<in> set cmts" by auto
    from Cons.IH [OF this] Inr show ?thesis by (cases p) simp
  qed
qed

text \<open>
  C2, as the code has it. A call of \<open>setup\<close> whose list holds an empty name returns an
  error and commits nothing: the loop runs inside one read-write transaction, which is
  rolled back as a whole, so the store is exactly what it was before the call and the
  containers of the earlier names are not created by it.
\<close>

theorem setup_names_empty_name_atomic:
  assumes "[] \<in> set names"
  shows "\<exists>err. setup_names d names = (Some err, d)"
proof -
  from setup_loop_empty_name [OF assms] obtain err t'
    where "setup_loop names d = ((), Some err, t')" by blast
  then show ?thesis by (simp add: setup_names_def Update_def)
qed

theorem setup_names_empty_name_atomic_witness:
  "[] \<in> set [''books'', []] \<and> (\<exists>err. setup_names [] [''books'', []] = (Some err, []))"
  using setup_names_empty_name_atomic [of "[''books'', []]" "[]"] by simp

text \<open>
  C2 as stated fails: on the empty store, \<open>books\<close> alone is created, but \<open>books\<close>
  followed by the empty name returns \<open>ErrBucketNameRequired\<close> and leaves no container
  \<open>books\<close> behind.
\<close>

theorem setup_names_partial_counterexample:
  "setup_names [] [''books''] = (None, [(''books'', Nested [])])
   \<and> setup_names [] [''books'', []] = (Some ErrBucketNameRequired, [])
   \<and> \<not> verify (snd (setup_names [] [''books'', []])) ''books''"
  by (simp add: setup_names_def Update_def CreateBucketIfNotExists_def CreateBucket_def
      verify_def View_def Bucket_def)

section \<open>The first rating of a resource instance\<close>

text \<open>
  C4, as the code has it. When the resource-type container exists, the resource-instance
  sub-container does not, and the key is not empty (and holds no record in the type
  container, as on every store of the rating service: \<open>store_after_keys\<close>), \<open>save\<close>
  creates the instance container and writes the rating into it: it returns the delta
  added to the zero aggregate and floored at 0, with no error, and afterwards the
  instance container exists and holds that aggregate as its ratings record.
\<close>

theorem rateable_save_creates_instance:
  assumes "type_container d (r_kind r)"
    and "\<not> instance_container d (r_kind r) (r_key r)"
    and "Get d [r_kind r] (r_key r) = None"
    and "r_key r \<noteq> []"
  shows "fst (rateable_save r rt d) = (Some (ensureNotNegative (rating_add rating_zero rt)), None)
    \<and> instance_container (snd (rateable_save r rt d)) (r_kind r) (r_key r)
    \<and> ratings_record (snd (rateable_save r rt d)) (r_kind r) (r_key r)
        = Some (marshal_rating (ensureNotNegative (rating_add rating_zero rt)))"
proof -
  let ?new = "ensureNotNegative (rating_add rating_zero rt)"
  from assms(1) obtain b where b: "bucket_at d [r_kind r] = Some b"
    by (auto simp: type_container_def Bucket_eq split: if_splits)
  from assms(2,3) b have absent: "map_of b (r_key r) = None"
    by (auto simp: instance_container_def Bucket_eq Get_def bucket_at_snoc [of d "[r_kind r]", simplified]
        split: option.splits node.splits if_splits)
  let ?t1 = "replace_at [r_kind r] (AList.update (r_key r) (Nested []) b) d"
  have create: "CreateBucketIfNotExists d [r_kind r] (r_key r) = Inr ([r_kind r, r_key r], ?t1)"
    using CreateBucketIfNotExists_new [OF b absent assms(4)] by simp
  have inst: "bucket_at ?t1 [r_kind r, r_key r] = Some []"
    using bucket_at_replace_at_below [OF b, of _ "[r_key r]"] by (simp add: update_conv')
  let ?t2 = "replace_at [r_kind r, r_key r] (AList.update ratingsKey (Record (marshal_rating ?new)) []) ?t1"
  have put: "Put ?t1 [r_kind r, r_key r] ratingsKey (marshal_rating ?new) = Inr ?t2"
    using Put_ok [OF inst, of ratingsKey] by (simp add: ratingsKey_def)
  have get1: "Get ?t1 [r_kind r, r_key r] ratingsKey = None"
    using inst by (simp add: Get_def)
  have save: "rateable_save r rt d = ((Some ?new, None), ?t2)"
    using b create get1 put
    by (simp add: rateable_save_def Update_def Bucket_eq Let_def del: replace_at.simps bucket_at.simps)
  have "bucket_at ?t2 [r_kind r, r_key r] = Some [(ratingsKey, Record (marshal_rating ?new))]"
    using bucket_at_replace_at_same [OF inst] by simp
  then show ?thesis
    unfolding save
    by (simp add: instance_container_def ratings_record_def Bucket_eq Get_def
        del: replace_at.simps bucket_at.simps)
qed

theorem rateable_save_creates_instance_witness:
  "type_container [(''rateable'', Nested [])] (r_kind \<lparr>r_kind = ''rateable'', r_key = ''rateableKey''\<rparr>)
   \<and> \<not> instance_container [(''rateable'', Nested [])]
         (r_kind \<lparr>r_kind = ''rateable'', r_key = ''rateableKey''\<rparr>)
         (r_key \<lparr>r_kind = ''rateable'', r_key = ''rateableKey''\<rparr>)
   \<and> fst (rateable_save \<lparr>r_kind = ''rateable'', r_key = ''rateableKey''\<rparr>
         \<lparr>FiveStars = 1, FourStars = 2, ThreeStars = 3, TwoStars = 4, OneStars = 5\<rparr>
         [(''rateable'', Nested [])])
       = (Some (ensureNotNegative (rating_add rating_zero
           \<lparr>FiveStars = 1, FourStars = 2, ThreeStars = 3, TwoStars = 4, OneStars = 5\<rparr>)), None)
   \<and> instance_container
         (snd (rateable_save \<lparr>r_kind = ''rateable'', r_key = ''rateableKey''\<rparr>
           \<lparr>FiveStars = 1, FourStars = 2, ThreeStars = 3, TwoStars = 4, OneStars = 5\<rparr>
           [(''rateable'', Nested [])]))
         (r_kind \<lparr>r_kind = ''rateable'', r_key = ''rateableKey''\<rparr>)
         (r_key \<lparr>r_kind = ''rateable'', r_key = ''rateableKey''\<rparr>)"
proof -
  let ?d = "[(''rateable'', Nested [])] :: db"
  let ?r = "\<lparr>r_kind = ''rateable'', r_key = ''rateableKey''\<rparr>"
  have h1: "type_container ?d (r_kind ?r)"
    by (simp add: type_container_def Bucket_def)
  have h2: "\<not> instance_container ?d (r_kind ?r) (r_key ?r)"
    by (simp add: instance_container_def Bucket_def)
  have h3: "Get ?d [r_kind ?r] (r_key ?r) = None"
    by (simp add: Get_def)
  have h4: "r_key ?r \<noteq> []"
    by simp
  from rateable_save_creates_instance [OF h1 h2 h3 h4] h1 h2 show ?thesis
    by blast
qed

text \<open>
  C4 as stated fails: with the type container \<open>rateable\<close> and no instance container,
  \<open>save\<close> returns the rating and no error, and the store holds the new instance
  container with its record (the second case of \<open>Test_rateable_save\<close>).
\<close>

theorem rateable_save_auto_create_counterexample:
  \<open>type_container [(''rateable'', Nested [])] ''rateable''
   \<and> \<not> instance_container [(''rateable'', Nested [])] ''rateable'' ''rateableKey''
   \<and> rateable_save \<lparr>r_kind = ''rateable'', r_key = ''rateableKey''\<rparr>
         \<lparr>FiveStars = 1, FourStars = 2, ThreeStars = 3, TwoStars = 4, OneStars = 5\<rparr>
         [(''rateable'', Nested [])]
       = ((Some \<lparr>FiveStars = 1, FourStars = 2, ThreeStars = 3, TwoStars = 4, OneStars = 5\<rparr>, None),
          [(''rateable'', Nested [(''rateableKey'', Nested [(''ratings'',
              Record ''{"five_stars":1,"four_stars":2,"three_stars":3,"two_stars":4,"one_stars":5}'')])])])\<close>
  by code_simp

section \<open>Removing a comment\<close>

text \<open>What \<open>remove\<close> does, case by case.\<close>

lemma commentable_remove_cases:
  "commentable_remove cm cKey d =
     (case bucket_at d [cm_kind cm] of
        None \<Rightarrow> (Some (Errorf (commentableTypeNotFoundFmt (cm_kind cm))), d)
      | Some _ \<Rightarrow>
          (case bucket_at d [cm_kind cm, cm_key cm] of
             None \<Rightarrow> (Some (Errorf (commentableNotFoundFmt (cm_key cm) (cm_kind cm))), d)
           | Some _ \<Rightarrow>
               (case bucket_at d [cm_kind cm, cm_key cm, commentsKey] of
                  None \<Rightarrow>
                    (Some (Errorf (''comment with key '' @ cKey @ '' not found for ''
                       @ cm_kind cm @ '' resource with id '' @ cm_key cm)), d)
                | Some b \<Rightarrow>
                    (case map_of b cKey of
                       Some (Nested _) \<Rightarrow> (Some ErrIncompatibleValue, d)
                     | _ \<Rightarrow> (None, replace_at [cm_kind cm, cm_key cm, commentsKey] (AList.delete cKey b) d)))))"
  by (auto simp: commentable_remove_def Update_def Bucket_eq Delete_def
      simp del: bucket_at.simps replace_at.simps
      split: option.splits node.splits sum.splits)

text \<open>
  C8. For every commentable whose resource-type container, resource-instance
  sub-container and comments sub-container exist, and every comment id, \<open>get\<close> of the
  id on the store that \<open>remove\<close> of the id leaves fails with the comment-not-found error
  (and returns no comment), whether the entry existed or not and whether \<open>remove\<close>
  itself returned an error or not.
\<close>

theorem commentable_get_after_remove:
  assumes "type_container d (cm_kind cm)"
    and "instance_container d (cm_kind cm) (cm_key cm)"
    and "comments_container d (cm_kind cm) (cm_key cm)"
  shows "commentable_get cm cKey (snd (commentable_remove cm cKey d))
         = (None, Some (Errorf (commentNotFoundFmt cKey (cm_kind cm) (cm_key cm))))"
proof -
  let ?p = "[cm_kind cm, cm_key cm, commentsKey]"
  from assms obtain b1 b2 b where b1: "bucket_at d [cm_kind cm] = Some b1"
    and b2: "bucket_at d [cm_kind cm, cm_key cm] = Some b2"
    and b: "bucket_at d ?p = Some b"
    by (auto simp: type_container_def instance_container_def comments_container_def Bucket_eq
        simp del: bucket_at.simps split: if_splits)
  show ?thesis
  proof (cases "\<exists>c. map_of b cKey = Some (Nested c)")
    case True
    then obtain c where c: "map_of b cKey = Some (Nested c)" by blast
    with b1 b2 b have "commentable_remove cm cKey d = (Some ErrIncompatibleValue, d)"
      by (simp add: commentable_remove_cases del: bucket_at.simps)
    moreover from b c have "Get d ?p cKey = None"
      by (simp add: Get_def del: bucket_at.simps)
    ultimately show ?thesis using b1 b2 b
      by (simp add: commentable_get_def View_def Bucket_eq del: bucket_at.simps)
  next
    case False
    let ?d' = "replace_at ?p (AList.delete cKey b) d"
    from False b1 b2 b have rem: "commentable_remove cm cKey d = (None, ?d')"
      by (auto simp: commentable_remove_cases simp del: bucket_at.simps replace_at.simps
          split: option.splits node.splits)
    from False have nn: "\<forall>c. map_of b cKey \<noteq> Some (Nested c)" by blast
    have e1: "bucket_at ?d' [cm_kind cm] \<noteq> None"
      using bucket_at_delete_frame [OF b nn, of "[cm_kind cm]"] b1 by simp
    have e2: "bucket_at ?d' [cm_kind cm, cm_key cm] \<noteq> None"
      using bucket_at_delete_frame [OF b nn, of "[cm_kind cm, cm_key cm]"] b2 by simp
    have e3: "bucket_at ?d' ?p \<noteq> None"
      using bucket_at_delete_frame [OF b nn, of ?p] b by simp
    have g: "Get ?d' ?p cKey = None"
      using Get_delete_frame [OF b nn, of ?p cKey] by simp
    from e1 e2 e3 obtain x1 x2 x3 where "bucket_at ?d' [cm_kind cm] = Some x1"
      and "bucket_at ?d' [cm_kind cm, cm_key cm] = Some x2" and "bucket_at ?d' ?p = Some x3"
      by blast
    with g show ?thesis
      unfolding rem
      by (simp add: commentable_get_def View_def Bucket_eq del: bucket_at.simps replace_at.simps)
  qed
qed

theorem commentable_get_after_remove_witness:
  "type_container one_comment_store (cm_kind \<lparr>cm_kind = ''commentable'', cm_key = ''commentableID''\<rparr>)
   \<and> instance_container one_comment_store
         (cm_kind \<lparr>cm_kind = ''commentable'', cm_key = ''commentableID''\<rparr>)
         (cm_key \<lparr>cm_kind = ''commentable'', cm_key = ''commentableID''\<rparr>)
   \<and> comments_container one_comment_store
         (cm_kind \<lparr>cm_kind = ''commentable'', cm_key = ''commentableID''\<rparr>)
         (cm_key \<lparr>cm_kind = ''commentable'', cm_key = ''commentableID''\<rparr>)
   \<and> commentable_get \<lparr>cm_kind = ''commentable'', cm_key = ''commentableID''\<rparr> ''12345'' one_comment_store
       = (Some \<lparr>ID = ''12345'', Value = ''something''\<rparr>, None)
   \<and> commentable_get \<lparr>cm_kind = ''commentable'', cm_key = ''commentableID''\<rparr> ''12345''
         (snd (commentable_remove \<lparr>cm_kind = ''commentable'', cm_key = ''commentableID''\<rparr> ''12345''
                 one_comment_store))
       = (None, Some (Errorf (commentNotFoundFmt ''12345''
           (cm_kind \<lparr>cm_kind = ''commentable'', cm_key = ''commentableID''\<rparr>)
           (cm_key \<lparr>cm_kind = ''commentable'', cm_key = ''commentableID''\<rparr>))))"
proof -
  let ?cm = "\<lparr>cm_kind = ''commentable'', cm_key = ''commentableID''\<rparr>"
  have h1: "type_container one_comment_store (cm_kind ?cm)" by code_simp
  have h2: "instance_container one_comment_store (cm_kind ?cm) (cm_key ?cm)" by code_simp
  have h3: "comments_container one_comment_store (cm_kind ?cm) (cm_key ?cm)" by code_simp
  have before: "commentable_get ?cm ''12345'' one_comment_store
                = (Some \<lparr>ID = ''12345'', Value = ''something''\<rparr>, None)"
    by code_simp
  from commentable_get_after_remove [OF h1 h2 h3, of "''12345''"] h1 h2 h3 before show ?thesis
    by blast
qed

text \<open>
  C10. \<open>remove\<close> of an id changes at most the entry under that id in the comments
  sub-container of its own resource type and key. Whatever it returns, \<open>Get\<close> gives
  the same answer after it as before it for every other key of every bucket (every
  other comment of the instance, its ratings record, every other instance and every
  other type), every bucket is where it was, every bucket whose path neither leads to
  that comments container nor through it (every other resource instance, every other
  resource type) has the very same content, and when it returns an error the store is
  unchanged altogether.
\<close>

theorem commentable_remove_frame:
  assumes "commentable_remove cm cKey d = (err, d')"
  shows "(\<forall>h k. (h, k) \<noteq> ([cm_kind cm, cm_key cm, commentsKey], cKey) \<longrightarrow> Get d' h k = Get d h k)
       \<and> (\<forall>h n. Bucket d' h n = Bucket d h n)
       \<and> (\<forall>h. \<not> prefix h [cm_kind cm, cm_key cm, commentsKey]
               \<and> \<not> prefix [cm_kind cm, cm_key cm, commentsKey] h \<longrightarrow> bucket_at d' h = bucket_at d h)
       \<and> (err \<noteq> None \<longrightarrow> d' = d)"
proof (cases "d' = d")
  case True
  then show ?thesis by simp
next
  case False
  let ?p = "[cm_kind cm, cm_key cm, commentsKey]"
  from False assms obtain b where b: "bucket_at d ?p = Some b"
    and nn: "\<forall>c. map_of b cKey \<noteq> Some (Nested c)"
    and d': "d' = replace_at ?p (AList.delete cKey b) d" and err: "err = None"
    by (auto simp: commentable_remove_cases simp del: bucket_at.simps replace_at.simps
        split: option.splits node.splits)
  show ?thesis
    unfolding d' err
    using Get_delete_frame [OF b nn] Bucket_delete_frame [OF b nn]
      bucket_at_replace_at_apart [of _ ?p "AList.delete cKey b" d]
    by (auto simp del: bucket_at.simps replace_at.simps)
qed

theorem commentable_remove_frame_witness:
  "commentable_remove \<lparr>cm_kind = ''books'', cm_key = ''b1''\<rparr> ''c1'' library_store
     = (None, library_store_removed)
   \<and> Get library_store_removed [''books'', ''b1'', commentsKey] ''c2'' = Some ''two''
   \<and> Get library_store_removed [''books'', ''b1''] ratingsKey = Some ''five''
   \<and> bucket_at library_store_removed [''books'', ''b2'']
       = Some [(''comments'', Nested [(''c1'', Record ''three'')])]
   \<and> bucket_at library_store_removed [''authors'']
       = Some [(''b1'', Nested [(''comments'', Nested [(''c1'', Record ''four'')])])]
   \<and> Bucket library_store_removed [''books'', ''b1''] commentsKey = Some [''books'', ''b1'', commentsKey]"
proof -
  let ?cm = "\<lparr>cm_kind = ''books'', cm_key = ''b1''\<rparr>"
  have run: "commentable_remove ?cm ''c1'' library_store = (None, library_store_removed)"
    by code_simp
  have before:
    "Get library_store [''books'', ''b1'', commentsKey] ''c2'' = Some ''two''"
    "Get library_store [''books'', ''b1''] ratingsKey = Some ''five''"
    "bucket_at library_store [''books'', ''b2''] = Some [(''comments'', Nested [(''c1'', Record ''three'')])]"
    "bucket_at library_store [''authors'']
       = Some [(''b1'', Nested [(''comments'', Nested [(''c1'', Record ''four'')])])]"
    "Bucket library_store [''books'', ''b1''] commentsKey = Some [''books'', ''b1'', commentsKey]"
    by code_simp+
  from commentable_remove_frame [OF run]
  have records: "\<And>h k. (h, k) \<noteq> ([cm_kind ?cm, cm_key ?cm, commentsKey], ''c1'')
                 \<Longrightarrow> Get library_store_removed h k = Get library_store h k"
    and buckets: "\<And>h n. Bucket library_store_removed h n = Bucket library_store h n"
    and others: "\<And>h. \<not> prefix h [cm_kind ?cm, cm_key ?cm, commentsKey]
                 \<Longrightarrow> \<not> prefix [cm_kind ?cm, cm_key ?cm, commentsKey] h
                 \<Longrightarrow> bucket_at library_store_removed h = bucket_at library_store h"
    by blast+
  have "Get library_store_removed [''books'', ''b1'', commentsKey] ''c2'' = Some ''two''"
    using records [of "[''books'', ''b1'', commentsKey]" "''c2''"] before(1) by simp
  moreover have "Get library_store_removed [''books'', ''b1''] ratingsKey = Some ''five''"
    using records [of "[''books'', ''b1'']" ratingsKey] before(2) by simp
  moreover have "bucket_at library_store_removed [''books'', ''b2'']
                 = Some [(''comments'', Nested [(''c1'', Record ''three'')])]"
    using others [of "[''books'', ''b2'']"] before(3) by (simp add: commentsKey_def)
  moreover have "bucket_at library_store_removed [''authors'']
                 = Some [(''b1'', Nested [(''comments'', Nested [(''c1'', Record ''four'')])])]"
    using others [of "[''authors'']"] before(4) by simp
  moreover have "Bucket library_store_removed [''books'', ''b1''] commentsKey
                 = Some [''books'', ''b1'', commentsKey]"
    using buckets [of "[''books'', ''b1'']" commentsKey] before(5) by simp
  ultimately show ?thesis
    using run by simp
qed

section \<open>The layout of the stores of the two services\<close>

lemma layout_rateable_save: "layout 2 (\<lambda>k. k = ratingsKey) d \<Longrightarrow> layout 2 (\<lambda>k. k = ratingsKey) (snd (rateable_save r rt d))"
proof (cases "snd (rateable_save r rt d) = d")
  case True
  assume "layout 2 (\<lambda>k. k = ratingsKey) d"
  with True show ?thesis by simp
next
  case False
  assume l: "layout 2 (\<lambda>k. k = ratingsKey) d"
  from False obtain t1 h1 v where
    create: "CreateBucketIfNotExists d [r_kind r] (r_key r) = Inr (h1, t1)"
    and put: "Put t1 h1 ratingsKey v = Inr (snd (rateable_save r rt d))"
    by (auto simp: rateable_save_def Update_def Bucket_eq Let_def
        simp del: bucket_at.simps
        split: if_splits option.splits sum.splits prod.splits)
  from CreateBucketIfNotExists_handle [OF create] have h1: "length h1 = 2" by simp
  from layout_create [OF l create] have "layout 2 (\<lambda>k. k = ratingsKey) t1" by simp
  from layout_Put [OF this put h1] show ?thesis by simp
qed

lemma layout_store_after: "layout 2 (\<lambda>k. k = ratingsKey) (store_after ops)"
proof -
  have step: "layout 2 (\<lambda>k. k = ratingsKey) d \<Longrightarrow> layout 2 (\<lambda>k. k = ratingsKey) (apply_op d op)" for d op
    by (cases op) (simp_all add: layout_setup_names layout_rateable_save split: prod.splits)
  have "layout 2 (\<lambda>k. k = ratingsKey) d \<Longrightarrow> layout 2 (\<lambda>k. k = ratingsKey) (foldl apply_op d ops)" for d
    by (induction ops arbitrary: d) (simp_all add: step)
  from this [OF layout_empty] show ?thesis by (simp add: store_after_def)
qed

text \<open>
  On every store of the rating service, no key of a type container holds a record and
  no ratings key holds a bucket: the two conditions of C1 and C4 on the keys are met.
\<close>

lemma store_after_keys:
  "Get (store_after ops) [kind] key = None
   \<and> Bucket (store_after ops) [kind, key] ratingsKey = None"
proof -
  have g: "\<And>h k v. Get (store_after ops) h k = Some v \<Longrightarrow> length h = 2"
    and b: "\<And>h. bucket_at (store_after ops) h \<noteq> None \<Longrightarrow> length h \<le> 2"
    using layout_record [OF layout_store_after] layout_bucket [OF layout_store_after] by blast+
  have "Get (store_after ops) [kind] key = None"
    using g [of "[kind]" key] by (cases "Get (store_after ops) [kind] key") auto
  moreover have "bucket_at (store_after ops) [kind, key, ratingsKey] = None"
  proof (rule ccontr)
    assume "bucket_at (store_after ops) [kind, key, ratingsKey] \<noteq> None"
    from b [OF this] show False by simp
  qed
  ultimately show ?thesis by (simp add: Bucket_eq del: bucket_at.simps)
qed

lemma layout_commentable_ensure: "layout 3 P d \<Longrightarrow> layout 3 P (snd (commentable_ensure cm d))"
proof (cases "snd (commentable_ensure cm d) = d")
  case True
  assume "layout 3 P d"
  with True show ?thesis by simp
next
  case False
  assume l: "layout 3 P d"
  from False obtain h1 where
    create: "CreateBucketIfNotExists d [cm_kind cm] (cm_key cm) = Inr (h1, snd (commentable_ensure cm d))"
    by (auto simp: commentable_ensure_def Update_def Bucket_eq
        simp del: bucket_at.simps
        split: if_splits option.splits sum.splits prod.splits)
  from layout_create [OF l create] show ?thesis by simp
qed

lemma layout_commentable_save: "layout 3 P d \<Longrightarrow> P (ID c) \<Longrightarrow> layout 3 P (snd (commentable_save cm (Some c) d))"
proof (cases "snd (commentable_save cm (Some c) d) = d")
  case True
  assume "layout 3 P d"
  with True show ?thesis by simp
next
  case False
  assume l: "layout 3 P d" and P: "P (ID c)"
  from False obtain t1 h1 where
    create: "CreateBucketIfNotExists d [cm_kind cm, cm_key cm] commentsKey = Inr (h1, t1)"
    and put: "Put t1 h1 (ID c) (marshal_comment c) = Inr (snd (commentable_save cm (Some c) d))"
    by (auto simp: commentable_save_def Update_def Bucket_eq Let_def
        simp del: bucket_at.simps
        split: if_splits option.splits sum.splits prod.splits)
  from CreateBucketIfNotExists_handle [OF create] have h1: "length h1 = 3" by simp
  from layout_create [OF l create] have "layout 3 P t1" by simp
  from layout_Put [OF this put h1 P] show ?thesis .
qed

lemma layout_commentable_remove: "layout 3 P d \<Longrightarrow> layout 3 P (snd (commentable_remove cm cKey d))"
proof -
  assume l: "layout 3 P d"
  obtain err d' where r: "commentable_remove cm cKey d = (err, d')"
    by (cases "commentable_remove cm cKey d")
  show ?thesis
  proof (cases "d' = d")
    case True
    with l r show ?thesis by simp
  next
    case False
    let ?p = "[cm_kind cm, cm_key cm, commentsKey]"
    from False r obtain b where b: "bucket_at d ?p = Some b"
      and nn: "\<forall>c. map_of b cKey \<noteq> Some (Nested c)"
      and d': "d' = replace_at ?p (AList.delete cKey b) d"
      by (auto simp: commentable_remove_cases simp del: bucket_at.simps replace_at.simps
          split: option.splits node.splits)
    have "layout 3 P d'"
      unfolding layout_def d'
    proof (rule conjI; intro allI impI)
      fix h k v assume "Get (replace_at ?p (AList.delete cKey b) d) h k = Some v"
      with Get_delete_frame [OF b nn, of h k] have "Get d h k = Some v"
        by (auto split: if_splits)
      then show "length h = 3 \<and> P k" by (rule layout_record [OF l])
    next
      fix h assume "bucket_at (replace_at ?p (AList.delete cKey b) d) h \<noteq> None"
      with bucket_at_delete_frame [OF b nn, of h] have "bucket_at d h \<noteq> None" by simp
      then show "length h \<le> 3" by (rule layout_bucket [OF l])
    qed
    with r show ?thesis by simp
  qed
qed

lemma layout_comment_store_after: "layout 3 (\<lambda>k. True) (comment_store_after ops)"
proof -
  have step: "layout 3 (\<lambda>k. True) d \<Longrightarrow> layout 3 (\<lambda>k. True) (apply_comment_op d op)" for d op
  proof (cases op)
    case (Add cm guid c)
    assume "layout 3 (\<lambda>k. True) d"
    with Add show ?thesis
      by (cases c) (simp_all add: commentable_add_def layout_commentable_save)
  next
    case (Replace cm c)
    assume "layout 3 (\<lambda>k. True) d"
    with Replace show ?thesis
      by (cases c) (simp_all add: layout_commentable_save, simp add: commentable_save_def)
  qed (simp_all add: layout_setup_names layout_commentable_ensure layout_commentable_remove)
  have "layout 3 (\<lambda>k. True) d \<Longrightarrow> layout 3 (\<lambda>k. True) (foldl apply_comment_op d ops)" for d
    by (induction ops arbitrary: d) (simp_all add: step)
  from this [OF layout_empty] show ?thesis by (simp add: comment_store_after_def)
qed

text \<open>
  On every store of the comment service, no key of a resource instance holds a record
  and no key of a comments container holds a bucket: the two conditions of C7 and C3
  on the keys are met.
\<close>

lemma comment_store_after_keys:
  "Get (comment_store_after ops) [kind, key] k = None
   \<and> Bucket (comment_store_after ops) [kind, key, commentsKey] cKey = None"
proof -
  have g: "\<And>h k v. Get (comment_store_after ops) h k = Some v \<Longrightarrow> length h = 3"
    and b: "\<And>h. bucket_at (comment_store_after ops) h \<noteq> None \<Longrightarrow> length h \<le> 3"
    using layout_record [OF layout_comment_store_after] layout_bucket [OF layout_comment_store_after]
    by blast+
  have "Get (comment_store_after ops) [kind, key] k = None"
    using g [of "[kind, key]" k] by (cases "Get (comment_store_after ops) [kind, key] k") auto
  moreover have "bucket_at (comment_store_after ops) [kind, key, commentsKey, cKey] = None"
  proof (rule ccontr)
    assume "bucket_at (comment_store_after ops) [kind, key, commentsKey, cKey] \<noteq> None"
    from b [OF this] show False by simp
  qed
  ultimately show ?thesis by (simp add: Bucket_eq del: bucket_at.simps)
qed

section \<open>Merging ratings\<close>

lemma rateable_save_step:
  assumes h: "holds_rating r d cur" and key: "r_key r \<noteq> []"
  shows "\<exists>d'. rateable_save r rt d = ((Some (merge_floor cur rt), None), d')
           \<and> holds_rating r d' (merge_floor cur rt)
           \<and> rateable_get r d' = (Some (merge_floor cur rt), None)"
proof -
  let ?k = "[r_kind r]" and ?p = "[r_kind r, r_key r]"
  let ?new = "merge_floor cur rt"
  from h obtain kb where kb: "bucket_at d ?k = Some kb"
    by (auto simp: holds_rating_def type_container_def Bucket_eq split: if_splits)
  from h have norec: "Get d ?k (r_key r) = None"
    and nobkt: "bucket_at d (?p @ [ratingsKey]) = None"
    by (auto simp: holds_rating_def Bucket_eq simp del: bucket_at.simps split: if_splits)
  from h have cur: "(case Get d ?p ratingsKey of
                       None \<Rightarrow> (rating_zero, None)
                     | Some data \<Rightarrow> unmarshal_rating data rating_zero) = (cur, None)"
    by (auto simp: holds_rating_def ratings_record_def unmarshal_marshal_rating)
  have "\<exists>t1 ib. CreateBucketIfNotExists d ?k (r_key r) = Inr (?p, t1)
          \<and> bucket_at t1 ?p = Some ib \<and> bucket_at t1 ?k \<noteq> None
          \<and> bucket_at t1 (?p @ [ratingsKey]) = None"
  proof (cases "bucket_at d ?p")
    case None
    with kb norec have absent: "map_of kb (r_key r) = None"
      using bucket_at_snoc [of d ?k "r_key r"]
      by (auto simp: Get_def split: option.splits node.splits)
    let ?t1 = "replace_at ?k (AList.update (r_key r) (Nested []) kb) d"
    have "CreateBucketIfNotExists d ?k (r_key r) = Inr (?p, ?t1)"
      using CreateBucketIfNotExists_new [OF kb absent key] by simp
    moreover have "bucket_at ?t1 ?p = Some []"
      using bucket_at_replace_at_below [OF kb, of _ "[r_key r]"] by (simp add: update_conv')
    moreover have "bucket_at ?t1 ?k \<noteq> None"
      using bucket_at_replace_at_same [OF kb] by simp
    moreover have "bucket_at ?t1 (?p @ [ratingsKey]) = None"
      using bucket_at_replace_at_below [OF kb, of _ "[r_key r, ratingsKey]"] by (simp add: update_conv')
    ultimately show ?thesis by blast
  next
    case (Some ib)
    then have "CreateBucketIfNotExists d ?k (r_key r) = Inr (?p, d)"
      using CreateBucketIfNotExists_existing [of d ?k "r_key r"] key by simp
    with Some kb nobkt show ?thesis by auto
  qed
  then obtain t1 ib where create: "CreateBucketIfNotExists d ?k (r_key r) = Inr (?p, t1)"
    and ib: "bucket_at t1 ?p = Some ib" and k1: "bucket_at t1 ?k \<noteq> None"
    and nobkt1: "bucket_at t1 (?p @ [ratingsKey]) = None"
    by blast
  have get1: "Get t1 h k = Get d h k" for h k
    by (rule Get_CreateBucketIfNotExists [OF create])
  from ib nobkt1 have nn: "\<forall>c. map_of ib ratingsKey \<noteq> Some (Nested c)"
    using bucket_at_snoc [of t1 ?p ratingsKey] by auto
  let ?t2 = "replace_at ?p (AList.update ratingsKey (Record (marshal_rating ?new)) ib) t1"
  have put: "Put t1 ?p ratingsKey (marshal_rating ?new) = Inr ?t2"
    using Put_ok [OF ib _ nn] by (simp add: ratingsKey_def)
  have save: "rateable_save r rt d = ((Some ?new, None), ?t2)"
    using kb create cur put
    by (simp add: rateable_save_def Update_def Bucket_eq Let_def get1
        ensureNotNegative_add_merge_floor del: bucket_at.simps replace_at.simps)
  have get2: "Get ?t2 h k = (if h = ?p \<and> k = ratingsKey then Some (marshal_rating ?new) else Get d h k)" for h k
    using Get_Put [OF put, of h k] get1 by simp
  have p2: "bucket_at ?t2 ?p = Some (AList.update ratingsKey (Record (marshal_rating ?new)) ib)"
    by (rule bucket_at_replace_at_same [OF ib])
  have k2: "bucket_at ?t2 ?k \<noteq> None"
    using bucket_at_replace_at_other [OF ib, of ?k] k1 by simp
  have b2: "bucket_at ?t2 (?p @ [ratingsKey]) = None"
    using bucket_at_replace_at_below [OF ib, of _ "[ratingsKey]"] by (simp add: update_conv')
  have "holds_rating r ?t2 ?new"
    using k2 b2 norec
    by (simp add: holds_rating_def type_container_def ratings_record_def Bucket_eq get2
        del: bucket_at.simps replace_at.simps)
  moreover have "rateable_get r ?t2 = (Some ?new, None)"
    using k2 p2
    by (simp add: rateable_get_def View_def Bucket_eq get2 unmarshal_marshal_rating
        del: bucket_at.simps replace_at.simps)
  ultimately show ?thesis using save by blast
qed

lemma save_all_merged:
  assumes "holds_rating r d cur" and "r_key r \<noteq> []"
  shows "save_all r rts d = map (\<lambda>a. ((Some a, None), (Some a, None))) (merged cur rts)"
  using assms(1)
proof (induction rts arbitrary: d cur)
  case Nil
  then show ?case by simp
next
  case (Cons rt rts)
  from rateable_save_step [OF Cons.prems assms(2), of rt] obtain d'
    where s: "rateable_save r rt d = ((Some (merge_floor cur rt), None), d')"
      and h: "holds_rating r d' (merge_floor cur rt)"
      and g: "rateable_get r d' = (Some (merge_floor cur rt), None)"
    by blast
  from Cons.IH [OF h] s g show ?case by simp
qed

text \<open>
  C1. Take a rateable whose type container exists and whose instance holds no ratings
  record yet (its key is not empty and names no record of the type container, and the
  ratings key names no bucket of the instance; the last two hold on every store of the
  rating service: \<open>store_after_keys\<close>). For every sequence of deltas saved
  through it, every call succeeds, returns the aggregate as the specification words the
  merge, and \<open>get\<close> reads that same aggregate back from the store right after the call:
  the \<open>n\<close>-th result is the \<open>(n-1)\<close>-th result plus the \<open>n\<close>-th delta, counter by counter
  in Go's \<open>int\<close>, floored at 0 right after that addition, starting from the zero
  aggregate. Every counter of every result is at least 0. (\<open>floor0_no_overflow\<close>: the
  floored sum is the integer \<open>max 0 (a + b)\<close> whenever \<open>a + b\<close> is in the range of
  \<open>int\<close>.) The witness is the sequence of the claim: \<open>-10\<close> then \<open>+3\<close> on a counter that
  starts at 0 gives 0 and then 3.
\<close>

theorem save_all_floor_each_merge:
  assumes "type_container d (r_kind r)"
    and "r_key r \<noteq> []"
    and "Get d [r_kind r] (r_key r) = None"
    and "ratings_record d (r_kind r) (r_key r) = None"
    and "Bucket d [r_kind r, r_key r] ratingsKey = None"
  shows "save_all r deltas d = map (\<lambda>a. ((Some a, None), (Some a, None))) (merged rating_zero deltas)
       \<and> (\<forall>a \<in> set (merged rating_zero deltas). non_negative a)"
proof -
  from assms(1,3,4,5) have "holds_rating r d rating_zero"
    by (simp add: holds_rating_def)
  from save_all_merged [OF this assms(2)] non_negative_merged show ?thesis by blast
qed

theorem save_all_floor_each_merge_witness:
  "type_container [(''rateable'', Nested [])] (r_kind \<lparr>r_kind = ''rateable'', r_key = ''rateableKey''\<rparr>)
   \<and> r_key \<lparr>r_kind = ''rateable'', r_key = ''rateableKey''\<rparr> \<noteq> []
   \<and> Get [(''rateable'', Nested [])] [r_kind \<lparr>r_kind = ''rateable'', r_key = ''rateableKey''\<rparr>]
        (r_key \<lparr>r_kind = ''rateable'', r_key = ''rateableKey''\<rparr>) = None
   \<and> ratings_record [(''rateable'', Nested [])]
        (r_kind \<lparr>r_kind = ''rateable'', r_key = ''rateableKey''\<rparr>)
        (r_key \<lparr>r_kind = ''rateable'', r_key = ''rateableKey''\<rparr>) = None
   \<and> Bucket [(''rateable'', Nested [])]
        [r_kind \<lparr>r_kind = ''rateable'', r_key = ''rateableKey''\<rparr>,
         r_key \<lparr>r_kind = ''rateable'', r_key = ''rateableKey''\<rparr>] ratingsKey = None
   \<and> save_all \<lparr>r_kind = ''rateable'', r_key = ''rateableKey''\<rparr>
        [\<lparr>FiveStars = - 10, FourStars = 0, ThreeStars = 0, TwoStars = 0, OneStars = 0\<rparr>,
         \<lparr>FiveStars = 3, FourStars = 0, ThreeStars = 0, TwoStars = 0, OneStars = 0\<rparr>]
        [(''rateable'', Nested [])]
      = [((Some \<lparr>FiveStars = 0, FourStars = 0, ThreeStars = 0, TwoStars = 0, OneStars = 0\<rparr>, None),
          (Some \<lparr>FiveStars = 0, FourStars = 0, ThreeStars = 0, TwoStars = 0, OneStars = 0\<rparr>, None)),
         ((Some \<lparr>FiveStars = 3, FourStars = 0, ThreeStars = 0, TwoStars = 0, OneStars = 0\<rparr>, None),
          (Some \<lparr>FiveStars = 3, FourStars = 0, ThreeStars = 0, TwoStars = 0, OneStars = 0\<rparr>, None))]"
proof -
  let ?d = "[(''rateable'', Nested [])] :: db"
  let ?r = "\<lparr>r_kind = ''rateable'', r_key = ''rateableKey''\<rparr>"
  let ?deltas = "[\<lparr>FiveStars = - 10, FourStars = 0, ThreeStars = 0, TwoStars = 0, OneStars = 0\<rparr>,
         \<lparr>FiveStars = 3, FourStars = 0, ThreeStars = 0, TwoStars = 0, OneStars = 0\<rparr>]"
  have h1: "type_container ?d (r_kind ?r)" by code_simp
  have h2: "r_key ?r \<noteq> []" by simp
  have h3: "Get ?d [r_kind ?r] (r_key ?r) = None" by code_simp
  have h4: "ratings_record ?d (r_kind ?r) (r_key ?r) = None" by code_simp
  have h5: "Bucket ?d [r_kind ?r, r_key ?r] ratingsKey = None" by code_simp
  have m: "merged rating_zero ?deltas =
      [\<lparr>FiveStars = 0, FourStars = 0, ThreeStars = 0, TwoStars = 0, OneStars = 0\<rparr>,
       \<lparr>FiveStars = 3, FourStars = 0, ThreeStars = 0, TwoStars = 0, OneStars = 0\<rparr>]"
    by code_simp
  from save_all_floor_each_merge [OF h1 h2 h3 h4 h5, of ?deltas]
  have "save_all ?r ?deltas ?d = map (\<lambda>a. ((Some a, None), (Some a, None))) (merged rating_zero ?deltas)"
    by blast
  also have "\<dots> =
      [((Some \<lparr>FiveStars = 0, FourStars = 0, ThreeStars = 0, TwoStars = 0, OneStars = 0\<rparr>, None),
        (Some \<lparr>FiveStars = 0, FourStars = 0, ThreeStars = 0, TwoStars = 0, OneStars = 0\<rparr>, None)),
       ((Some \<lparr>FiveStars = 3, FourStars = 0, ThreeStars = 0, TwoStars = 0, OneStars = 0\<rparr>, None),
        (Some \<lparr>FiveStars = 3, FourStars = 0, ThreeStars = 0, TwoStars = 0, OneStars = 0\<rparr>, None))]"
    unfolding m by simp
  finally have res: "save_all ?r ?deltas ?d =
      [((Some \<lparr>FiveStars = 0, FourStars = 0, ThreeStars = 0, TwoStars = 0, OneStars = 0\<rparr>, None),
        (Some \<lparr>FiveStars = 0, FourStars = 0, ThreeStars = 0, TwoStars = 0, OneStars = 0\<rparr>, None)),
       ((Some \<lparr>FiveStars = 3, FourStars = 0, ThreeStars = 0, TwoStars = 0, OneStars = 0\<rparr>, None),
        (Some \<lparr>FiveStars = 3, FourStars = 0, ThreeStars = 0, TwoStars = 0, OneStars = 0\<rparr>, None))]" .
  show ?thesis by (intro conjI h1 h2 h3 h4 h5 res)
qed

section \<open>The stored ratings\<close>

text \<open>
  A call of \<open>save\<close> leaves the store as it was, or it has written the floored
  aggregate it returns as the ratings record of its instance and nothing else.
\<close>

lemma rateable_save_cases:
  assumes "rateable_save r rt d = (res, d')"
  shows "d' = d \<or>
    (\<exists>new. non_negative new \<and> res = (Some new, None) \<and>
       (\<forall>h k. Get d' h k = (if h = [r_kind r, r_key r] \<and> k = ratingsKey
                              then Some (marshal_rating new) else Get d h k)))"
proof (cases "d' = d")
  case True
  then show ?thesis by simp
next
  case False
  with assms obtain t1 h1 cur where
    create: "CreateBucketIfNotExists d [r_kind r] (r_key r) = Inr (h1, t1)"
    and put: "Put t1 h1 ratingsKey (marshal_rating (ensureNotNegative (rating_add cur rt))) = Inr d'"
    and res: "res = (Some (ensureNotNegative (rating_add cur rt)), None)"
    by (auto simp: rateable_save_def Update_def Bucket_eq Let_def
        simp del: bucket_at.simps
        split: if_splits option.splits sum.splits prod.splits)
  from CreateBucketIfNotExists_handle [OF create] have h1: "h1 = [r_kind r, r_key r]" by simp
  have "Get d' h k = (if h = [r_kind r, r_key r] \<and> k = ratingsKey
          then Some (marshal_rating (ensureNotNegative (rating_add cur rt))) else Get d h k)" for h k
    using Get_Put [OF put, of h k] Get_CreateBucketIfNotExists [OF create, of h k] h1 by simp
  with res non_negative_ensureNotNegative show ?thesis by blast
qed

lemma records_ok_empty: "records_ok []"
  by (simp add: records_ok_def Get_empty)

lemma records_ok_apply_op: "records_ok d \<Longrightarrow> records_ok (apply_op d op)"
proof (cases op)
  case (Setup names)
  assume "records_ok d"
  with Setup show ?thesis by (simp add: records_ok_def Get_setup_names)
next
  case (Save r rt)
  assume ok: "records_ok d"
  obtain res d' where s: "rateable_save r rt d = (res, d')" by (cases "rateable_save r rt d")
  have "records_ok d'"
    unfolding records_ok_def
  proof (intro allI impI)
    fix kind key data
    assume g: "Get d' [kind, key] ratingsKey = Some data"
    from rateable_save_cases [OF s] show "\<exists>rt. data = marshal_rating rt \<and> non_negative rt"
    proof
      assume "d' = d"
      with g ok show ?thesis unfolding records_ok_def by blast
    next
      assume "\<exists>new. non_negative new \<and> res = (Some new, None) \<and>
        (\<forall>h k. Get d' h k = (if h = [r_kind r, r_key r] \<and> k = ratingsKey
                               then Some (marshal_rating new) else Get d h k))"
      then obtain new where nn: "non_negative new"
        and fr: "Get d' [kind, key] ratingsKey =
                 (if [kind, key] = [r_kind r, r_key r] \<and> ratingsKey = ratingsKey
                  then Some (marshal_rating new) else Get d [kind, key] ratingsKey)"
        by blast
      show ?thesis
      proof (cases "[kind, key] = [r_kind r, r_key r]")
        case True
        with fr g nn show ?thesis by auto
      next
        case False
        with fr have "Get d' [kind, key] ratingsKey = Get d [kind, key] ratingsKey" by auto
        with g have "Get d [kind, key] ratingsKey = Some data" by simp
        with ok show ?thesis unfolding records_ok_def by blast
      qed
    qed
  qed
  with Save s show ?thesis by simp
next
  case (Fetch r)
  assume "records_ok d"
  with Fetch show ?thesis by (simp split: prod.splits)
qed

lemma records_ok_foldl: "records_ok d \<Longrightarrow> records_ok (foldl apply_op d ops)"
  by (induction ops arbitrary: d) (simp_all add: records_ok_apply_op)

text \<open>
  C5. On every store that a sequence of \<open>setup\<close>, \<open>save\<close> and \<open>get\<close> operations of
  the rating service leaves when it starts from the empty store, the ratings record of
  any resource instance, whenever present, decodes without error to an aggregate whose
  five counters are all at least 0.
\<close>

theorem stored_ratings_non_negative:
  assumes "ratings_record (store_after ops) kind key = Some data"
  shows "\<exists>rt. unmarshal_rating data rating_zero = (rt, None) \<and> non_negative rt"
proof -
  have "records_ok (store_after ops)"
    unfolding store_after_def by (rule records_ok_foldl [OF records_ok_empty])
  with assms obtain rt where "data = marshal_rating rt" and "non_negative rt"
    unfolding records_ok_def ratings_record_def by blast
  then show ?thesis by (auto simp: unmarshal_marshal_rating)
qed

theorem stored_ratings_non_negative_witness:
  \<open>ratings_record
     (store_after
       [Setup [''posts''],
        Save \<lparr>r_kind = ''posts'', r_key = ''my-key''\<rparr>
          \<lparr>FiveStars = 4, FourStars = - 3, ThreeStars = 0, TwoStars = 0, OneStars = 0\<rparr>,
        Fetch \<lparr>r_kind = ''posts'', r_key = ''my-key''\<rparr>,
        Save \<lparr>r_kind = ''posts'', r_key = ''my-key''\<rparr>
          \<lparr>FiveStars = - 10, FourStars = 5, ThreeStars = 0, TwoStars = 0, OneStars = 0\<rparr>])
     ''posts'' ''my-key''
   = Some ''{"five_stars":0,"four_stars":5,"three_stars":0,"two_stars":0,"one_stars":0}''
   \<and> (\<exists>rt. unmarshal_rating
          ''{"five_stars":0,"four_stars":5,"three_stars":0,"two_stars":0,"one_stars":0}'' rating_zero
          = (rt, None) \<and> non_negative rt)\<close>
proof -
  let ?ops = "[Setup [''posts''],
        Save \<lparr>r_kind = ''posts'', r_key = ''my-key''\<rparr>
          \<lparr>FiveStars = 4, FourStars = - 3, ThreeStars = 0, TwoStars = 0, OneStars = 0\<rparr>,
        Fetch \<lparr>r_kind = ''posts'', r_key = ''my-key''\<rparr>,
        Save \<lparr>r_kind = ''posts'', r_key = ''my-key''\<rparr>
          \<lparr>FiveStars = - 10, FourStars = 5, ThreeStars = 0, TwoStars = 0, OneStars = 0\<rparr>]"
  have stored: \<open>ratings_record (store_after ?ops) ''posts'' ''my-key''
      = Some ''{"five_stars":0,"four_stars":5,"three_stars":0,"two_stars":0,"one_stars":0}''\<close>
    by code_simp
  from stored_ratings_non_negative [OF stored] stored show ?thesis
    by blast
qed

section \<open>Replacing a comment\<close>




section \<open>Creating a comment\<close>




end
